theory Spec2Isabelle
  imports Complex_Main "HOL-Library.Log_Nat"
begin

section \<open>JavaScript values as the checkout handler sees them\<close>

text \<open>
  The handler \<open>POST /api/cart/checkout\<close> of \<open>server/index.js\<close> works on the parsed JSON
  body of the request. A number is an IEEE double: the two infinities and NaN are kept as
  such, and a finite double is the rational that it denotes, the two zeros being one (the
  handler tells them nowhere apart). A string is a list of code units, read in the range
  U+0000 to U+00FF.
\<close>

datatype jsnum = Fin rat | PInf | NInf | NaN

datatype jsval =
    JUndefined
  | JNull
  | JBool bool
  | JNum jsnum
  | JStr string
  | JArr "jsval list"
  | JObj "(string \<times> jsval) list"

text \<open>
  \<open>JObj\<close> lists the own properties of an object in the order of the JSON text; where a
  key is repeated, the last member wins, as in \<open>JSON.parse\<close>.
\<close>

datatype error = TypeError

text \<open>
  What the language fixes but this development does not compute is a parameter: the
  decimal text of a number that is not an integer below \<open>10^21\<close>, and the number a string
  denotes (\<open>StringToNumber\<close>).
\<close>

record runtime =
  formatOther :: "jsnum \<Rightarrow> string"
  StringToNumber :: "string \<Rightarrow> jsnum"

subsection \<open>Numbers\<close>

definition isFinite :: "jsnum \<Rightarrow> bool" where
  "isFinite n = (case n of Fin q \<Rightarrow> True | _ \<Rightarrow> False)"

text \<open>
  The result of an arithmetic operation on finite numbers is its exact value rounded to
  the nearest double, a tie going to the even significand (IEEE 754 binary64): 53
  significant bits, exponents from -1022 to 1023, subnormal numbers below, and an
  infinity once the rounded magnitude reaches \<open>2^1024\<close>. \<open>binaryExponent a\<close> is the
  integer \<open>e\<close> with \<open>2^e \<le> a < 2^(e+1)\<close>, for \<open>a > 0\<close>.
\<close>

definition binaryExponent :: "rat \<Rightarrow> int" where
  "binaryExponent a = (if 1 \<le> a then bitlen \<lfloor>a\<rfloor> - 1 else - bitlen (\<lceil>1 / a\<rceil> - 1))"

definition roundHalfEven :: "rat \<Rightarrow> int" where
  "roundHalfEven m =
     (let f = \<lfloor>m\<rfloor>; r = m - of_int f
      in if r < 1 / 2 then f
         else if 1 / 2 < r then f + 1
         else if even f then f else f + 1)"

definition roundDouble :: "rat \<Rightarrow> jsnum" where
  "roundDouble x =
     (if x = 0 then Fin 0
      else
        (let a = \<bar>x\<bar>;
             e = max (binaryExponent a) (- 1022);
             ulp = 2 powi (e - 52);
             r = of_int (roundHalfEven (a / ulp)) * ulp
         in if 2 ^ 1024 \<le> r then (if 0 < x then PInf else NInf)
            else Fin (if 0 < x then r else - r)))"

definition js_add :: "jsnum \<Rightarrow> jsnum \<Rightarrow> jsnum" where
  "js_add a b =
     (case (a, b) of
        (NaN, _) \<Rightarrow> NaN
      | (_, NaN) \<Rightarrow> NaN
      | (PInf, NInf) \<Rightarrow> NaN
      | (NInf, PInf) \<Rightarrow> NaN
      | (PInf, _) \<Rightarrow> PInf
      | (_, PInf) \<Rightarrow> PInf
      | (NInf, _) \<Rightarrow> NInf
      | (_, NInf) \<Rightarrow> NInf
      | (Fin x, Fin y) \<Rightarrow> roundDouble (x + y))"

definition js_sign_inf :: "bool \<Rightarrow> jsnum" where
  "js_sign_inf positive = (if positive then PInf else NInf)"

definition js_mul :: "jsnum \<Rightarrow> jsnum \<Rightarrow> jsnum" where
  "js_mul a b =
     (case (a, b) of
        (NaN, _) \<Rightarrow> NaN
      | (_, NaN) \<Rightarrow> NaN
      | (Fin x, Fin y) \<Rightarrow> roundDouble (x * y)
      | (Fin x, PInf) \<Rightarrow> (if x = 0 then NaN else js_sign_inf (0 < x))
      | (Fin x, NInf) \<Rightarrow> (if x = 0 then NaN else js_sign_inf (x < 0))
      | (PInf, Fin y) \<Rightarrow> (if y = 0 then NaN else js_sign_inf (0 < y))
      | (NInf, Fin y) \<Rightarrow> (if y = 0 then NaN else js_sign_inf (y < 0))
      | (PInf, PInf) \<Rightarrow> PInf
      | (NInf, NInf) \<Rightarrow> PInf
      | (PInf, NInf) \<Rightarrow> NInf
      | (NInf, PInf) \<Rightarrow> NInf)"

definition js_gt :: "jsnum \<Rightarrow> jsnum \<Rightarrow> bool" where
  "js_gt a b =
     (case (a, b) of
        (NaN, _) \<Rightarrow> False
      | (_, NaN) \<Rightarrow> False
      | (Fin x, Fin y) \<Rightarrow> y < x
      | (PInf, PInf) \<Rightarrow> False
      | (PInf, _) \<Rightarrow> True
      | (_, PInf) \<Rightarrow> False
      | (NInf, _) \<Rightarrow> False
      | (_, NInf) \<Rightarrow> True)"

text \<open>\<open>Math.round\<close>: the nearest integer, a tie going up.\<close>

definition Math_round :: "jsnum \<Rightarrow> jsnum" where
  "Math_round a = (case a of Fin x \<Rightarrow> Fin (of_int \<lfloor>x + 1 / 2\<rfloor>) | _ \<Rightarrow> a)"

definition Math_max :: "jsnum \<Rightarrow> jsnum \<Rightarrow> jsnum" where
  "Math_max a b =
     (case (a, b) of
        (NaN, _) \<Rightarrow> NaN
      | (_, NaN) \<Rightarrow> NaN
      | (PInf, _) \<Rightarrow> PInf
      | (_, PInf) \<Rightarrow> PInf
      | (NInf, _) \<Rightarrow> b
      | (_, NInf) \<Rightarrow> a
      | (Fin x, Fin y) \<Rightarrow> Fin (max x y))"

subsection \<open>Strings\<close>

text \<open>The white space and line terminators that \<open>String.prototype.trim\<close> strips.\<close>

definition isWhiteSpace :: "char \<Rightarrow> bool" where
  "isWhiteSpace c =
     (c = CHR 0x09 \<or> c = CHR 0x0A \<or> c = CHR 0x0B \<or> c = CHR 0x0C \<or> c = CHR 0x0D
      \<or> c = CHR 0x20 \<or> c = CHR 0xA0)"

definition trim :: "string \<Rightarrow> string" where
  "trim s = rev (dropWhile isWhiteSpace (rev (dropWhile isWhiteSpace s)))"

definition digit :: "int \<Rightarrow> char" where
  "digit d = char_of (48 + d)"

function digits :: "int \<Rightarrow> string" where
  "digits n = (if n < 10 then [digit n] else digits (n div 10) @ [digit (n mod 10)])"
  by pat_completeness auto
termination
  by (relation "measure nat") auto

declare digits.simps [simp del]

text \<open>
  \<open>Number::toString\<close> of a positive integer \<open>a\<close> below \<open>10^21\<close> with \<open>n\<close> decimal digits:
  the digits of the integer \<open>s\<close> with the fewest digits \<open>k\<close> such that \<open>s * 10^(n-k)\<close> is a
  decimal of the double \<open>a\<close>, followed by \<open>n - k\<close> zeros. \<open>candidate a n j\<close> is the choice
  of \<open>s\<close> for \<open>n - k = j\<close>: of the two multiples of \<open>10^j\<close> around \<open>a\<close>, the one that
  rounds to \<open>a\<close>; if both do, the closer one, and the even one if they are as close. An
  integer that is no double is written with all its digits.
\<close>

definition candidate :: "int \<Rightarrow> nat \<Rightarrow> nat \<Rightarrow> int option" where
  "candidate a n j =
     (let p = 10 ^ j;
          lo = a div p;
          hi = lo + 1;
          okLo = (roundDouble (of_int (lo * p)) = Fin (of_int a));
          okHi = (hi * p < 10 ^ n \<and> roundDouble (of_int (hi * p)) = Fin (of_int a))
      in if okLo \<and> okHi
         then (if a - lo * p < hi * p - a then Some lo
               else if hi * p - a < a - lo * p then Some hi
               else if even lo then Some lo else Some hi)
         else if okLo then Some lo
         else if okHi then Some hi
         else None)"

definition shortestDigits :: "int \<Rightarrow> string" where
  "shortestDigits a =
     (let n = length (digits a)
      in case List.map_filter (\<lambda>j. map_option (\<lambda>s. (s, j)) (candidate a n j)) (rev [0..<n]) of
           [] \<Rightarrow> digits a
         | (s, j) # _ \<Rightarrow> digits s @ replicate j (CHR ''0''))"

text \<open>
  \<open>Number::toString\<close>: an integer below \<open>10^21\<close> in absolute value is written as above,
  after its sign; every other finite number is left to the runtime.
\<close>

definition Number_toString :: "runtime \<Rightarrow> jsnum \<Rightarrow> string" where
  "Number_toString rt n =
     (case n of
        NaN \<Rightarrow> ''NaN''
      | PInf \<Rightarrow> ''Infinity''
      | NInf \<Rightarrow> ''-Infinity''
      | Fin x \<Rightarrow>
          (if x = of_int \<lfloor>x\<rfloor> \<and> \<bar>x\<bar> < 10 ^ 21
           then (if x = 0 then ''0''
                 else if x < 0 then ''-'' @ shortestDigits (- \<lfloor>x\<rfloor>)
                 else shortestDigits \<lfloor>x\<rfloor>)
           else formatOther rt n))"

subsection \<open>Property access and operators\<close>

definition getOwn :: "(string \<times> jsval) list \<Rightarrow> string \<Rightarrow> jsval" where
  "getOwn kvs k = (case map_of (rev kvs) k of None \<Rightarrow> JUndefined | Some v \<Rightarrow> v)"

definition hasOwn :: "(string \<times> jsval) list \<Rightarrow> string \<Rightarrow> bool" where
  "hasOwn kvs k = (map_of (rev kvs) k \<noteq> None)"

text \<open>
  \<open>v.k\<close>, for the property names the handler reads (\<open>campus\<close>, \<open>pickup\<close>, \<open>paymentMethod\<close>,
  \<open>gcashNumber\<close>, \<open>items\<close>, \<open>cart\<close>, \<open>productId\<close>, \<open>id\<close>, \<open>name\<close>, \<open>qty\<close>, \<open>quantity\<close>,
  \<open>price\<close>): none of them is defined on a prototype, so an array, a string, a number and
  a boolean have none of them; reading a property of \<open>null\<close> or \<open>undefined\<close> throws.
\<close>

definition getProp :: "jsval \<Rightarrow> string \<Rightarrow> error + jsval" where
  "getProp v k =
     (case v of
        JUndefined \<Rightarrow> Inl TypeError
      | JNull \<Rightarrow> Inl TypeError
      | JObj kvs \<Rightarrow> Inr (getOwn kvs k)
      | _ \<Rightarrow> Inr JUndefined)"

text \<open>\<open>v?.k\<close>\<close>

definition optProp :: "jsval \<Rightarrow> string \<Rightarrow> jsval" where
  "optProp v k =
     (case v of
        JObj kvs \<Rightarrow> getOwn kvs k
      | _ \<Rightarrow> JUndefined)"

definition truthy :: "jsval \<Rightarrow> bool" where
  "truthy v =
     (case v of
        JUndefined \<Rightarrow> False
      | JNull \<Rightarrow> False
      | JBool b \<Rightarrow> b
      | JNum n \<Rightarrow> n \<noteq> NaN \<and> n \<noteq> Fin 0
      | JStr s \<Rightarrow> s \<noteq> []
      | JArr xs \<Rightarrow> True
      | JObj kvs \<Rightarrow> True)"

text \<open>\<open>a || b\<close>\<close>

definition js_or :: "jsval \<Rightarrow> jsval \<Rightarrow> jsval" where
  "js_or a b = (if truthy a then a else b)"

text \<open>\<open>a ?? b\<close>\<close>

definition nullish :: "jsval \<Rightarrow> jsval \<Rightarrow> jsval" where
  "nullish a b = (if a = JUndefined \<or> a = JNull then b else a)"

subsection \<open>Coercions\<close>

text \<open>
  \<open>String(v)\<close>. An array is joined with commas, \<open>null\<close> and \<open>undefined\<close> elements giving
  the empty string. An object of a JSON body has no callable property of its own: where it
  has a \<open>toString\<close> property that one shadows \<open>Object.prototype.toString\<close> and the
  conversion throws; otherwise the text is \<open>[object Object]\<close>.
\<close>

fun ToString :: "runtime \<Rightarrow> jsval \<Rightarrow> error + string"
  and join :: "runtime \<Rightarrow> jsval list \<Rightarrow> error + string" where
  "ToString rt JUndefined = Inr ''undefined''"
| "ToString rt JNull = Inr ''null''"
| "ToString rt (JBool b) = Inr (if b then ''true'' else ''false'')"
| "ToString rt (JNum n) = Inr (Number_toString rt n)"
| "ToString rt (JStr s) = Inr s"
| "ToString rt (JArr xs) = join rt xs"
| "ToString rt (JObj kvs) =
     (if hasOwn kvs ''toString'' then Inl TypeError else Inr ''[object Object]'')"
| "join rt [] = Inr []"
| "join rt (x # xs) =
     (case (if x = JUndefined \<or> x = JNull then Inr [] else ToString rt x) of
        Inl e \<Rightarrow> Inl e
      | Inr s \<Rightarrow>
          (if xs = [] then Inr s
           else (case join rt xs of Inl e \<Rightarrow> Inl e | Inr t \<Rightarrow> Inr (s @ '','' @ t))))"

text \<open>\<open>v.toString()\<close>\<close>

definition toString :: "runtime \<Rightarrow> jsval \<Rightarrow> error + string" where
  "toString rt v =
     (case v of
        JUndefined \<Rightarrow> Inl TypeError
      | JNull \<Rightarrow> Inl TypeError
      | _ \<Rightarrow> ToString rt v)"

text \<open>
  \<open>Number(v)\<close>. An array or an object is first converted to a primitive: \<open>valueOf\<close> gives
  no primitive, so the text of \<open>toString\<close> is the one converted.
\<close>

definition ToNumber :: "runtime \<Rightarrow> jsval \<Rightarrow> error + jsnum" where
  "ToNumber rt v =
     (case v of
        JUndefined \<Rightarrow> Inr NaN
      | JNull \<Rightarrow> Inr (Fin 0)
      | JBool b \<Rightarrow> Inr (Fin (if b then 1 else 0))
      | JNum n \<Rightarrow> Inr n
      | JStr s \<Rightarrow> Inr (StringToNumber rt s)
      | _ \<Rightarrow> (case ToString rt v of Inl e \<Rightarrow> Inl e | Inr s \<Rightarrow> Inr (StringToNumber rt s)))"

subsection \<open>Exceptions\<close>

definition bindE :: "error + 'a \<Rightarrow> ('a \<Rightarrow> error + 'b) \<Rightarrow> error + 'b" where
  "bindE m f = (case m of Inl e \<Rightarrow> Inl e | Inr x \<Rightarrow> f x)"

text \<open>\<open>xs.map(f)\<close> where \<open>f\<close> may throw: the first exception ends the loop.\<close>

fun mapE :: "('a \<Rightarrow> error + 'b) \<Rightarrow> 'a list \<Rightarrow> error + 'b list" where
  "mapE f [] = Inr []"
| "mapE f (x # xs) =
     (case f x of
        Inl e \<Rightarrow> Inl e
      | Inr y \<Rightarrow> (case mapE f xs of Inl e \<Rightarrow> Inl e | Inr ys \<Rightarrow> Inr (y # ys)))"

section \<open>The data model\<close>

record product =
  p_id :: string
  p_price :: jsval

record normItem =
  productId :: string
  qty :: jsnum
  priceSnap :: jsnum

record orderItem =
  oi_productId :: string
  oi_qty :: jsnum
  oi_price :: jsnum

record order =
  campus :: string
  pickup :: string
  paymentMethod :: string
  gcashNumber :: "string option"
  total :: jsnum
  items :: "orderItem list"

datatype query = FindProducts "string list" | CreateOrder

record db =
  products :: "product list"
  orders :: "order list"
  queries :: "query list"

text \<open>
  Modelled from the spec: the persistence layer (the Prisma client and its schema are not
  among the sources). "Find many products by id list" returns the catalog entries whose
  identifier is in the list; "create order with nested items" appends the order and its
  items to the order store in one step. The identifier of an order is its position in the
  store. \<open>queries\<close> records every call, in order. What the schema would refuse (a field
  of the wrong column type) and the failures of the infrastructure are not modelled.
\<close>

definition product_findMany :: "db \<Rightarrow> string list \<Rightarrow> product list \<times> db" where
  "product_findMany d ids =
     (filter (\<lambda>p. p_id p \<in> set ids) (products d),
      d\<lparr>queries := queries d @ [FindProducts ids]\<rparr>)"

definition order_create :: "db \<Rightarrow> order \<Rightarrow> nat \<times> db" where
  "order_create d data =
     (length (orders d),
      d\<lparr>orders := orders d @ [data], queries := queries d @ [CreateOrder]\<rparr>)"

section \<open>The checkout handler\<close>

record summary =
  orderId :: nat
  r_total :: jsnum
  r_paymentMethod :: string
  r_pickup :: string
  itemCount :: nat

text \<open>
  The three responses of the handler: \<open>res.json\<close> of the order summary, status 422 with
  \<open>error\<close>, \<open>hint\<close> and \<open>received\<close>, and status 500 of the \<open>catch\<close> block with \<open>error\<close> and
  the exception.
\<close>

datatype response =
    Created summary
  | Rejected string string jsval
  | Failed string error

fun status :: "response \<Rightarrow> nat" where
  "status (Created s) = 200"
| "status (Rejected e h r) = 422"
| "status (Failed e x) = 500"

record fields =
  f_campus :: string
  f_pickup :: string
  f_paymentMethod :: string
  f_gcashNumber :: string

text \<open>Lines 198 to 201: the four top-level fields, each with its default.\<close>

definition topLevel :: "runtime \<Rightarrow> jsval \<Rightarrow> error + fields" where
  "topLevel rt body =
     bindE (toString rt (js_or (optProp body ''campus'') (JStr ''ADMU''))) (\<lambda>c.
     bindE (toString rt (js_or (optProp body ''pickup'') (JStr ''Gate 2.5''))) (\<lambda>p.
     bindE (toString rt (js_or (optProp body ''paymentMethod'') (JStr ''gcash''))) (\<lambda>m.
     bindE (toString rt (js_or (optProp body ''gcashNumber'') (JStr ''''))) (\<lambda>g.
     Inr \<lparr>f_campus = c, f_pickup = p, f_paymentMethod = m, f_gcashNumber = g\<rparr>))))"

text \<open>
  Lines 204 to 207: the payload shapes. \<open>Array.isArray\<close> holds of the values built with
  \<open>JArr\<close> and of no other.
\<close>

definition selectItems :: "jsval \<Rightarrow> jsval list" where
  "selectItems body =
     (case body of
        JArr xs \<Rightarrow> xs
      | _ \<Rightarrow>
          (case optProp body ''items'' of
             JArr xs \<Rightarrow> xs
           | _ \<Rightarrow> (case optProp body ''cart'' of JArr xs \<Rightarrow> xs | _ \<Rightarrow> [])))"

text \<open>Lines 210 to 214: the callback of \<open>map\<close>.\<close>

definition normOne :: "runtime \<Rightarrow> jsval \<Rightarrow> error + normItem" where
  "normOne rt i =
     bindE (getProp i ''productId'') (\<lambda>a.
     bindE (getProp i ''id'') (\<lambda>b.
     bindE (getProp i ''name'') (\<lambda>c.
     bindE (ToString rt (js_or (js_or (js_or a b) c) (JStr ''''))) (\<lambda>s.
     bindE (getProp i ''qty'') (\<lambda>q.
     bindE (getProp i ''quantity'') (\<lambda>q'.
     bindE (ToNumber rt (nullish (nullish q q') (JNum (Fin 1)))) (\<lambda>n.
     bindE (getProp i ''price'') (\<lambda>p.
     bindE (ToNumber rt (nullish p (JNum (Fin 0)))) (\<lambda>m.
     Inr \<lparr>productId = trim s, qty = n, priceSnap = m\<rparr>)))))))))"

definition normalize :: "runtime \<Rightarrow> jsval \<Rightarrow> error + normItem list" where
  "normalize rt body = mapE (normOne rt) (selectItems body)"

text \<open>Line 230: \<open>Object.fromEntries\<close>, a later entry replacing an earlier one of its key.\<close>

definition fromEntries :: "(string \<times> jsval) list \<Rightarrow> (string \<rightharpoonup> jsval)" where
  "fromEntries es = foldl (\<lambda>m (k, v). m(k \<mapsto> v)) Map.empty es"

text \<open>
  \<open>priceMap[k]\<close>. For a key the map has not, the handler reads \<open>undefined\<close> or a member of
  \<open>Object.prototype\<close>; neither is a number, and the handler only asks whether the value
  is a finite number.
\<close>

definition pmGet :: "(string \<rightharpoonup> jsval) \<Rightarrow> string \<Rightarrow> jsval" where
  "pmGet priceMap k = (case priceMap k of None \<Rightarrow> JUndefined | Some v \<Rightarrow> v)"

text \<open>\<open>Number.isFinite(v) ? v : null\<close>\<close>

definition finiteOrNull :: "jsval \<Rightarrow> jsnum option" where
  "finiteOrNull v = (case v of JNum (Fin x) \<Rightarrow> Some (Fin x) | _ \<Rightarrow> None)"

text \<open>Lines 233 to 238: the callback of \<open>reduce\<close>.\<close>

definition totalStep :: "(string \<rightharpoonup> jsval) \<Rightarrow> jsnum \<Rightarrow> normItem \<Rightarrow> jsnum" where
  "totalStep priceMap sum_acc i =
     (let dbPrice = finiteOrNull (pmGet priceMap (productId i));
          unit = (case dbPrice of
                    Some p \<Rightarrow> p
                  | None \<Rightarrow> (if isFinite (priceSnap i) then priceSnap i else Fin 0));
          qty = (if isFinite (qty i) \<and> js_gt (qty i) (Fin 0) then qty i else Fin 1)
      in js_add sum_acc (js_mul unit qty))"

text \<open>Lines 249 to 255: the callback of the nested \<open>create\<close>.\<close>

definition createItem :: "(string \<rightharpoonup> jsval) \<Rightarrow> normItem \<Rightarrow> orderItem" where
  "createItem priceMap i =
     \<lparr>oi_productId = (if productId i \<noteq> [] then productId i else ''UNKNOWN''),
      oi_qty = (if isFinite (qty i) \<and> js_gt (qty i) (Fin 0) then qty i else Fin 1),
      oi_price = (case finiteOrNull (pmGet priceMap (productId i)) of
                    Some p \<Rightarrow> p
                  | None \<Rightarrow> (if isFinite (priceSnap i) then priceSnap i else Fin 0))\<rparr>"

text \<open>The body of the \<open>try\<close> block.\<close>

definition checkout_try :: "runtime \<Rightarrow> jsval \<Rightarrow> db \<Rightarrow> error + response \<times> db" where
  "checkout_try rt body d =
     bindE (topLevel rt body) (\<lambda>f.
     bindE (normalize rt body) (\<lambda>norm.
       if length norm = 0
       then Inr (Rejected ''No items received''
                   ''Check Content-Type: application/json and request body shape'' body, d)
       else
         (let ids = map productId (filter (\<lambda>i. productId i \<noteq> []) norm);
              (found, d1) = product_findMany d ids;
              priceMap = fromEntries (map (\<lambda>p. (p_id p, p_price p)) found);
              total = foldl (totalStep priceMap) (Fin 0) norm;
              data = \<lparr>campus = f_campus f,
                      pickup = f_pickup f,
                      paymentMethod = f_paymentMethod f,
                      gcashNumber = (if f_paymentMethod f = ''gcash''
                                     then Some (f_gcashNumber f) else None),
                      total = Math_max (Fin 0) (Math_round total),
                      items = map (createItem priceMap) norm\<rparr>;
              (oid, d2) = order_create d1 data
          in Inr (Created \<lparr>orderId = oid,
                           r_total = order.total data,
                           r_paymentMethod = order.paymentMethod data,
                           r_pickup = order.pickup data,
                           itemCount = length (order.items data)\<rparr>, d2))))"

text \<open>
  The handler. An exception is thrown only before the first query, so the \<open>catch\<close> block
  answers on the store as the request found it.
\<close>

definition checkout :: "runtime \<Rightarrow> jsval \<Rightarrow> db \<Rightarrow> response \<times> db" where
  "checkout rt body d =
     (case checkout_try rt body d of
        Inl e \<Rightarrow> (Failed ''Checkout failed'' e, d)
      | Inr r \<Rightarrow> r)"

section \<open>What the specification names\<close>

text \<open>
  The order that a successful request stores, and the catalog prices it reads, as terms of
  their own: \<open>lookupIds\<close> is line 226, \<open>catalogPrices\<close> lines 227 to 230, \<open>placed\<close> the
  \<open>data\<close> of lines 242 to 257 and \<open>receipt\<close> the response of lines 263 to 269.
\<close>

definition lookupIds :: "normItem list \<Rightarrow> string list" where
  "lookupIds ns = map productId (filter (\<lambda>i. productId i \<noteq> []) ns)"

definition catalogPrices :: "db \<Rightarrow> normItem list \<Rightarrow> (string \<rightharpoonup> jsval)" where
  "catalogPrices d ns =
     fromEntries (map (\<lambda>p. (p_id p, p_price p))
       (filter (\<lambda>p. p_id p \<in> set (lookupIds ns)) (products d)))"

definition placed :: "fields \<Rightarrow> (string \<rightharpoonup> jsval) \<Rightarrow> normItem list \<Rightarrow> order" where
  "placed f priceMap ns =
     \<lparr>campus = f_campus f,
      pickup = f_pickup f,
      paymentMethod = f_paymentMethod f,
      gcashNumber = (if f_paymentMethod f = ''gcash'' then Some (f_gcashNumber f) else None),
      total = Math_max (Fin 0) (Math_round (foldl (totalStep priceMap) (Fin 0) ns)),
      items = map (createItem priceMap) ns\<rparr>"

definition receipt :: "nat \<Rightarrow> order \<Rightarrow> summary" where
  "receipt n data =
     \<lparr>orderId = n,
      r_total = total data,
      r_paymentMethod = paymentMethod data,
      r_pickup = pickup data,
      itemCount = length (items data)\<rparr>"

definition hint :: string where
  "hint = ''Check Content-Type: application/json and request body shape''"

text \<open>The value of a finite number.\<close>

definition num :: "jsnum \<Rightarrow> rat" where
  "num n = (case n of Fin x \<Rightarrow> x | _ \<Rightarrow> 0)"

text \<open>
  The resolved unit price in the words of the specification: the catalog price if the
  identifier matched a catalog entry and that price is a finite number, otherwise the
  client-side price snapshot if that is a finite number, otherwise 0. An empty identifier
  is never looked up.
\<close>

definition snapshotOrZero :: "normItem \<Rightarrow> jsnum" where
  "snapshotOrZero i = (case priceSnap i of Fin x \<Rightarrow> Fin x | _ \<Rightarrow> Fin 0)"

definition resolvedPrice :: "product list \<Rightarrow> normItem \<Rightarrow> jsnum" where
  "resolvedPrice catalog i =
     (if productId i = [] then snapshotOrZero i
      else (case find (\<lambda>p. p_id p = productId i) catalog of
              None \<Rightarrow> snapshotOrZero i
            | Some p \<Rightarrow> (case p_price p of JNum (Fin c) \<Rightarrow> Fin c | _ \<Rightarrow> snapshotOrZero i)))"

text \<open>
  The effective quantity in the words of the specification: the normalized quantity if it
  is a finite number greater than 0, else 1.
\<close>

definition effectiveQty :: "normItem \<Rightarrow> jsnum" where
  "effectiveQty i = (case qty i of Fin x \<Rightarrow> (if 0 < x then Fin x else Fin 1) | _ \<Rightarrow> Fin 1)"

text \<open>
  The sum of price times quantity as the handler computes it: in doubles, from left to
  right, starting from 0.
\<close>

definition sumProducts :: "(jsnum \<times> jsnum) list \<Rightarrow> jsnum" where
  "sumProducts pqs = foldl (\<lambda>s (p, q). js_add s (js_mul p q)) (Fin 0) pqs"

text \<open>The same sum in exact arithmetic, and the sum of the magnitudes of its terms.\<close>

definition exactSum :: "(jsnum \<times> jsnum) list \<Rightarrow> rat" where
  "exactSum pqs = sum_list (map (\<lambda>(p, q). num p * num q) pqs)"


text \<open>
  Starting from the partial sum \<open>a\<close>, no product and no partial sum of the exact
  computation is rounded: each is a double as it stands.
\<close>

fun exactFrom :: "rat \<Rightarrow> (jsnum \<times> jsnum) list \<Rightarrow> bool" where
  "exactFrom a [] = True"
| "exactFrom a ((Fin p, Fin q) # pqs) =
     (roundDouble (p * q) = Fin (p * q) \<and> roundDouble (a + p * q) = Fin (a + p * q)
      \<and> exactFrom (a + p * q) pqs)"
| "exactFrom a (pq # pqs) = False"



definition priced :: "orderItem list \<Rightarrow> (jsnum \<times> jsnum) list" where
  "priced its = map (\<lambda>it. (oi_price it, oi_qty it)) its"

text \<open>
  The invariants that the specification gives a normalized item: a trimmed identifier, a
  positive quantity, a price snapshot that is not negative.
\<close>

definition normItemInvariant :: "normItem \<Rightarrow> bool" where
  "normItemInvariant i =
     (trim (productId i) = productId i
      \<and> isFinite (qty i) \<and> js_gt (qty i) (Fin 0)
      \<and> isFinite (priceSnap i) \<and> \<not> js_gt (Fin 0) (priceSnap i))"

text \<open>
  The identifier in the words of the specification: the first of \<open>productId\<close>, \<open>id\<close>,
  \<open>name\<close> that is not empty (not absent, not \<open>null\<close>, not the empty string), coerced to a
  string and trimmed; the empty string if there is none.
\<close>

definition nonEmptyField :: "jsval \<Rightarrow> bool" where
  "nonEmptyField v = (v \<noteq> JUndefined \<and> v \<noteq> JNull \<and> v \<noteq> JStr [])"

definition spec_identifier :: "runtime \<Rightarrow> jsval \<Rightarrow> error + string" where
  "spec_identifier rt i =
     (case find nonEmptyField [optProp i ''productId'', optProp i ''id'', optProp i ''name''] of
        None \<Rightarrow> Inr []
      | Some v \<Rightarrow> bindE (ToString rt v) (\<lambda>s. Inr (trim s)))"

text \<open>A value that is neither an array nor an object.\<close>

definition primitive :: "jsval \<Rightarrow> bool" where
  "primitive v = (case v of JArr xs \<Rightarrow> False | JObj kvs \<Rightarrow> False | _ \<Rightarrow> True)"

subsection \<open>Sample data\<close>

text \<open>
  A runtime, a catalog and an empty order store for the evaluations below. No evaluation
  converts a string to a number or prints a number that is not an integer, so the two
  fields of the runtime are never read.
\<close>

definition sampleRuntime :: runtime where
  "sampleRuntime = \<lparr>formatOther = (\<lambda>n. []), StringToNumber = (\<lambda>s. NaN)\<rparr>"

definition sampleDb :: db where
  "sampleDb =
     \<lparr>products = [\<lparr>p_id = ''p2'', p_price = JNum (Fin 40)\<rparr>,
                  \<lparr>p_id = ''p3'', p_price = JNum (Fin 120)\<rparr>],
      orders = [],
      queries = []\<rparr>"

section \<open>The paths of the handler\<close>

lemma bindE_simps [simp]: "bindE (Inl e) f = Inl e" "bindE (Inr x) f = f x"
  by (simp_all add: bindE_def)

text \<open>
  The handler has four ways out: the order is created, the item list is empty, a top-level
  field throws, an item throws.
\<close>

lemma checkout_created:
  assumes "topLevel rt body = Inr f" and "normalize rt body = Inr ns" and "ns \<noteq> []"
  shows "checkout rt body d =
           (Created (receipt (length (orders d)) (placed f (catalogPrices d ns) ns)),
            d\<lparr>orders := orders d @ [placed f (catalogPrices d ns) ns],
              queries := queries d @ [FindProducts (lookupIds ns), CreateOrder]\<rparr>)"
  using assms
  by (simp add: checkout_def checkout_try_def product_findMany_def order_create_def
      catalogPrices_def lookupIds_def placed_def receipt_def Let_def)

lemma checkout_rejected:
  assumes "topLevel rt body = Inr f" and "normalize rt body = Inr []"
  shows "checkout rt body d = (Rejected ''No items received'' hint body, d)"
  using assms by (simp add: checkout_def checkout_try_def hint_def)

lemma checkout_failed_fields:
  assumes "topLevel rt body = Inl e"
  shows "checkout rt body d = (Failed ''Checkout failed'' e, d)"
  using assms by (simp add: checkout_def checkout_try_def)

lemma checkout_failed_items:
  assumes "topLevel rt body = Inr f" and "normalize rt body = Inl e"
  shows "checkout rt body d = (Failed ''Checkout failed'' e, d)"
  using assms by (simp add: checkout_def checkout_try_def)

lemma checkout_CreatedE:
  assumes "checkout rt body d = (Created s, d')"
  obtains f ns where "topLevel rt body = Inr f" and "normalize rt body = Inr ns" and "ns \<noteq> []"
    and "s = receipt (length (orders d)) (placed f (catalogPrices d ns) ns)"
    and "d' = d\<lparr>orders := orders d @ [placed f (catalogPrices d ns) ns],
              queries := queries d @ [FindProducts (lookupIds ns), CreateOrder]\<rparr>"
proof (cases "topLevel rt body")
  case (Inl e)
  with assms show ?thesis by (simp add: checkout_failed_fields)
next
  case f: (Inr f)
  show ?thesis
  proof (cases "normalize rt body")
    case (Inl e)
    with f assms show ?thesis by (simp add: checkout_failed_items)
  next
    case (Inr ns)
    show ?thesis
    proof (cases "ns = []")
      case True
      with f Inr assms show ?thesis by (simp add: checkout_rejected)
    next
      case False
      with f Inr assms that show ?thesis by (simp add: checkout_created)
    qed
  qed
qed

section \<open>Payload shapes\<close>

text \<open>
  Claim C3. For every list of raw cart items, the request body that is the bare list, a
  body that carries it as \<open>items\<close> and a body that carries it as \<open>cart\<close> (with no list as
  \<open>items\<close>) normalize to the same result, whatever other fields the object has: the
  normalization of the items of the list, one by one and in order, or the same exception.
\<close>

theorem normalize_shape_independent:
  "selectItems (JArr xs) = xs
   \<and> normalize rt (JArr xs) = mapE (normOne rt) xs
   \<and> (optProp (JObj kvs) ''items'' = JArr xs \<longrightarrow>
        selectItems (JObj kvs) = xs \<and> normalize rt (JObj kvs) = normalize rt (JArr xs))
   \<and> ((\<forall>ys. optProp (JObj kvs) ''items'' \<noteq> JArr ys) \<and> optProp (JObj kvs) ''cart'' = JArr xs \<longrightarrow>
        selectItems (JObj kvs) = xs \<and> normalize rt (JObj kvs) = normalize rt (JArr xs))
   \<and> normalize rt (JObj [(''items'', JArr xs)]) = normalize rt (JArr xs)
   \<and> normalize rt (JObj [(''cart'', JArr xs)]) = normalize rt (JArr xs)"
proof (intro conjI impI)
  show "selectItems (JArr xs) = xs"
    by (simp add: selectItems_def)
  show "normalize rt (JArr xs) = mapE (normOne rt) xs"
    by (simp add: normalize_def selectItems_def)
  show "selectItems (JObj kvs) = xs" if "optProp (JObj kvs) ''items'' = JArr xs"
    using that by (simp add: selectItems_def)
  then show "normalize rt (JObj kvs) = normalize rt (JArr xs)"
    if "optProp (JObj kvs) ''items'' = JArr xs"
    using that by (simp add: normalize_def selectItems_def)
  show c: "selectItems (JObj kvs) = xs"
    if "(\<forall>ys. optProp (JObj kvs) ''items'' \<noteq> JArr ys) \<and> optProp (JObj kvs) ''cart'' = JArr xs"
    using that by (cases "optProp (JObj kvs) ''items''") (simp_all add: selectItems_def)
  show "normalize rt (JObj kvs) = normalize rt (JArr xs)"
    if "(\<forall>ys. optProp (JObj kvs) ''items'' \<noteq> JArr ys) \<and> optProp (JObj kvs) ''cart'' = JArr xs"
    using c [OF that] by (simp add: normalize_def selectItems_def)
  show "normalize rt (JObj [(''items'', JArr xs)]) = normalize rt (JArr xs)"
    by (simp add: normalize_def selectItems_def optProp_def getOwn_def)
  show "normalize rt (JObj [(''cart'', JArr xs)]) = normalize rt (JArr xs)"
    by (simp add: normalize_def selectItems_def optProp_def getOwn_def)
qed

theorem normalize_shape_independent_witness:
  "normalize sampleRuntime
     (JObj [(''campus'', JStr ''UPD''),
            (''items'', JArr [JObj [(''id'', JStr ''p1''), (''qty'', JNum (Fin 2)),
                                    (''price'', JNum (Fin 50))]]),
            (''paymentMethod'', JStr ''cod'')])
     = Inr [\<lparr>productId = ''p1'', qty = Fin 2, priceSnap = Fin 50\<rparr>]
   \<and> normalize sampleRuntime
     (JObj [(''pickup'', JStr ''Regis''), (''items'', JStr ''none''),
            (''cart'', JArr [JObj [(''id'', JStr ''p1''), (''qty'', JNum (Fin 2)),
                                   (''price'', JNum (Fin 50))]])])
     = Inr [\<lparr>productId = ''p1'', qty = Fin 2, priceSnap = Fin 50\<rparr>]
   \<and> normalize sampleRuntime
     (JArr [JObj [(''id'', JStr ''p1''), (''qty'', JNum (Fin 2)), (''price'', JNum (Fin 50))]])
     = Inr [\<lparr>productId = ''p1'', qty = Fin 2, priceSnap = Fin 50\<rparr>]"
proof -
  let ?xs = "[JObj [(''id'', JStr ''p1''), (''qty'', JNum (Fin 2)), (''price'', JNum (Fin 50))]]"
  let ?a = "[(''campus'', JStr ''UPD''), (''items'', JArr ?xs), (''paymentMethod'', JStr ''cod'')]"
  let ?b = "[(''pickup'', JStr ''Regis''), (''items'', JStr ''none''), (''cart'', JArr ?xs)]"
  have n: "mapE (normOne sampleRuntime) ?xs
      = Inr [\<lparr>productId = ''p1'', qty = Fin 2, priceSnap = Fin 50\<rparr>]"
    by (simp add: normOne_def getProp_def getOwn_def js_or_def
        nullish_def truthy_def ToNumber_def trim_def isWhiteSpace_def)
  have a: "optProp (JObj ?a) ''items'' = JArr ?xs"
    by (simp add: optProp_def getOwn_def)
  have b: "(\<forall>ys. optProp (JObj ?b) ''items'' \<noteq> JArr ys) \<and> optProp (JObj ?b) ''cart'' = JArr ?xs"
    by (simp add: optProp_def getOwn_def)
  from normalize_shape_independent [of ?xs sampleRuntime ?a] a n
  have 1: "normalize sampleRuntime (JObj ?a)
      = Inr [\<lparr>productId = ''p1'', qty = Fin 2, priceSnap = Fin 50\<rparr>]"
    by simp
  from normalize_shape_independent [of ?xs sampleRuntime ?b] b n
  have 2: "normalize sampleRuntime (JObj ?b)
      = Inr [\<lparr>productId = ''p1'', qty = Fin 2, priceSnap = Fin 50\<rparr>]"
    and 3: "normalize sampleRuntime (JArr ?xs)
      = Inr [\<lparr>productId = ''p1'', qty = Fin 2, priceSnap = Fin 50\<rparr>]"
    by simp_all
  from 1 2 3 show ?thesis by (intro conjI)
qed

section \<open>Double rounding\<close>

lemma roundHalfEven_of_int: "roundHalfEven (of_int k) = k"
  by (simp add: roundHalfEven_def)

lemma binaryExponent_le:
  assumes "0 < a"
  shows "2 powi (binaryExponent a) \<le> a"
proof (cases "1 \<le> a")
  case True
  then have p: "0 < \<lfloor>a\<rfloor>" by simp
  then have n: "0 \<le> bitlen \<lfloor>a\<rfloor> - 1"
    using bitlen_eq_zero_iff [of "\<lfloor>a\<rfloor>"] bitlen_nonneg [of "\<lfloor>a\<rfloor>"] by linarith
  from bitlen_bounds [OF p] have "2 ^ nat (bitlen \<lfloor>a\<rfloor> - 1) \<le> \<lfloor>a\<rfloor>" by simp
  then have "(of_int (2 ^ nat (bitlen \<lfloor>a\<rfloor> - 1)) :: rat) \<le> of_int \<lfloor>a\<rfloor>"
    by (simp only: of_int_le_iff)
  also have "\<dots> \<le> a" by simp
  finally have "(2 :: rat) ^ nat (bitlen \<lfloor>a\<rfloor> - 1) \<le> a" by simp
  with True n show ?thesis
    by (simp add: binaryExponent_def power_int_nonneg_exp)
next
  case False
  with assms have "1 < 1 / a" by simp
  then have c: "0 < \<lceil>1 / a\<rceil> - 1" by (simp add: less_ceiling_iff)
  let ?b = "bitlen (\<lceil>1 / a\<rceil> - 1)"
  from bitlen_bounds [OF c] have "\<lceil>1 / a\<rceil> - 1 < 2 ^ nat ?b" by simp
  then have "\<lceil>1 / a\<rceil> \<le> 2 ^ nat ?b" by simp
  then have "(of_int \<lceil>1 / a\<rceil> :: rat) \<le> of_int (2 ^ nat ?b)"
    by (simp only: of_int_le_iff)
  then have "(of_int \<lceil>1 / a\<rceil> :: rat) \<le> 2 ^ nat ?b" by simp
  moreover have "1 / a \<le> of_int \<lceil>1 / a\<rceil>" by (rule le_of_int_ceiling)
  ultimately have "1 / a \<le> 2 ^ nat ?b" by (rule order_trans [rotated])
  with assms have "1 / 2 ^ nat ?b \<le> a"
    by (simp add: field_simps)
  moreover have "0 \<le> ?b" by (rule bitlen_nonneg)
  ultimately show ?thesis
    using False by (simp add: binaryExponent_def power_int_minus_divide power_int_nonneg_exp)
qed

text \<open>
  A number with a significand below \<open>2^53\<close>, an exponent of at least -1074 and a magnitude
  below \<open>2^1024\<close> is a double: rounding leaves it as it is.
\<close>

lemma roundDouble_exact:
  assumes x: "x = of_int m * 2 powi j" and m: "\<bar>m\<bar> < 2 ^ 53" and j: "- 1074 \<le> j"
    and b: "\<bar>x\<bar> < 2 ^ 1024"
  shows "roundDouble x = Fin x"
proof (cases "x = 0")
  case True
  then show ?thesis by (simp add: roundDouble_def)
next
  case False
  define a where "a = \<bar>x\<bar>"
  define e where "e = max (binaryExponent a) (- 1022)"
  define ulp :: rat where "ulp = 2 powi (e - 52)"
  have a0: "0 < a" using False by (simp add: a_def)
  have pj: "(0 :: rat) < 2 powi j" by simp
  have am: "a = of_int \<bar>m\<bar> * 2 powi j"
    unfolding a_def x by (simp add: abs_mult)
  have "of_int \<bar>m\<bar> < (2 :: rat) ^ 53"
    using m by (metis of_int_less_iff of_int_numeral of_int_power)
  then have "a < 2 ^ 53 * 2 powi j"
    unfolding am using pj by (simp only: mult_strict_right_mono)
  also have "\<dots> = 2 powi (53 + j)"
    by (simp add: power_int_add)
  finally have "2 powi (binaryExponent a) < (2 :: rat) powi (53 + j)"
    using binaryExponent_le [OF a0] by simp
  then have "binaryExponent a < 53 + j"
    using power_int_increasing [of "53 + j" "binaryExponent a" "2 :: rat"] by fastforce
  with j have e: "e \<le> 52 + j" by (simp add: e_def)
  define t where "t = nat (j - (e - 52))"
  have t: "j = (e - 52) + int t" using e by (simp add: t_def)
  have "2 powi j = (2 :: rat) powi (e - 52) * 2 ^ t"
    by (subst t) (simp add: power_int_add)
  then have q: "a / ulp = of_int (\<bar>m\<bar> * 2 ^ t)"
    unfolding am ulp_def by simp
  have u0: "ulp \<noteq> 0" by (simp add: ulp_def)
  have "of_int (roundHalfEven (a / ulp)) * ulp = a / ulp * ulp"
    unfolding q roundHalfEven_of_int ..
  also have "\<dots> = a" using u0 by simp
  finally have r: "of_int (roundHalfEven (a / ulp)) * ulp = a" .
  have "roundDouble x = (if 2 ^ 1024 \<le> a then (if 0 < x then PInf else NInf)
      else Fin (if 0 < x then a else - a))"
    using False r by (simp add: roundDouble_def Let_def a_def [symmetric] e_def [symmetric]
        ulp_def [symmetric])
  also have "\<dots> = Fin (if 0 < x then a else - a)"
    using b by (simp add: a_def)
  also have "\<dots> = Fin x"
    by (simp add: a_def)
  finally show ?thesis .
qed

text \<open>Every integer below \<open>2^53\<close> in absolute value is a double.\<close>

lemma roundDouble_of_int:
  assumes "\<bar>n\<bar> < 2 ^ 53"
  shows "roundDouble (of_int n) = Fin (of_int n)"
proof (rule roundDouble_exact [where m = n and j = 0])
  show "(of_int n :: rat) = of_int n * 2 powi 0" by simp
  show "\<bar>n\<bar> < 2 ^ 53" by fact
  show "- 1074 \<le> (0 :: int)" by simp
  have "\<bar>of_int n :: rat\<bar> < 2 ^ 53"
    using assms by (metis of_int_abs of_int_less_iff of_int_numeral of_int_power)
  also have "(2 :: rat) ^ 53 < 2 ^ 1024" by simp
  finally show "\<bar>of_int n :: rat\<bar> < 2 ^ 1024" .
qed

lemma roundDouble_numeral [simp]:
  "roundDouble 0 = Fin 0"
  "roundDouble 1 = Fin 1"
  "numeral k < (2 :: int) ^ 53 \<Longrightarrow> roundDouble (numeral k) = Fin (numeral k)"
  "numeral k < (2 :: int) ^ 53 \<Longrightarrow> roundDouble (- numeral k) = Fin (- numeral k)"
  using roundDouble_of_int [of 0] roundDouble_of_int [of 1]
    roundDouble_of_int [of "numeral k"] roundDouble_of_int [of "- numeral k"]
  by simp_all






section \<open>Numbers and strings\<close>

lemma Math_round_of_int: "Math_round (Fin (of_int n)) = Fin (of_int n)"
proof -
  have "\<lfloor>(of_int n :: rat) + 1 / 2\<rfloor> = n"
    by (rule floor_unique) simp_all
  then show ?thesis by (simp add: Math_round_def)
qed

lemma Math_round_numeral [simp]:
  "Math_round (Fin 0) = Fin 0"
  "Math_round (Fin 1) = Fin 1"
  "Math_round (Fin (numeral k)) = Fin (numeral k)"
  "Math_round (Fin (- numeral k)) = Fin (- numeral k)"
  using Math_round_of_int [of 0] Math_round_of_int [of 1]
    Math_round_of_int [of "numeral k"] Math_round_of_int [of "- numeral k"]
  by simp_all


lemma dropWhile_hd: "dropWhile P xs = [] \<or> \<not> P (hd (dropWhile P xs))"
  using hd_dropWhile by blast

text \<open>A trimmed string neither starts nor ends with white space.\<close>

lemma trim_ends:
  "trim s = [] \<or> (\<not> isWhiteSpace (hd (trim s)) \<and> \<not> isWhiteSpace (last (trim s)))"
proof -
  let ?P = isWhiteSpace
  define t where "t = dropWhile ?P s"
  define u where "u = rev (dropWhile ?P (rev t))"
  have u: "trim s = u" by (simp add: trim_def u_def t_def)
  have t: "t = [] \<or> \<not> ?P (hd t)"
    unfolding t_def by (rule dropWhile_hd)
  have "rev u = [] \<or> \<not> ?P (hd (rev u))"
    unfolding u_def rev_rev_ident by (rule dropWhile_hd)
  then have l: "u = [] \<or> \<not> ?P (last u)"
    by (simp add: hd_rev)
  have "rev t = takeWhile ?P (rev t) @ rev u"
    unfolding u_def by simp
  then have "rev (rev t) = rev (takeWhile ?P (rev t) @ rev u)" by (rule arg_cong)
  then have tu: "t = u @ rev (takeWhile ?P (rev t))" by simp
  have "u = [] \<or> \<not> ?P (hd u)"
  proof (cases "u = []")
    case False
    then have "hd t = hd u" and "t \<noteq> []" using tu by (metis hd_append2, auto)
    with t show ?thesis by simp
  qed simp
  with l u show ?thesis by auto
qed

lemma trim_fixed:
  assumes "xs = [] \<or> (\<not> isWhiteSpace (hd xs) \<and> \<not> isWhiteSpace (last xs))"
  shows "trim xs = xs"
proof (cases "xs = []")
  case True
  then show ?thesis by (simp add: trim_def)
next
  case False
  with assms have h: "\<not> isWhiteSpace (hd xs)" and l: "\<not> isWhiteSpace (last xs)" by auto
  from h False have "dropWhile isWhiteSpace xs = xs"
    by (simp add: dropWhile_eq_self_iff)
  moreover from l False have "dropWhile isWhiteSpace (rev xs) = rev xs"
    by (simp add: dropWhile_eq_self_iff hd_rev)
  ultimately show ?thesis by (simp add: trim_def)
qed

lemma trim_idem: "trim (trim s) = trim s"
  using trim_ends [of s] by (rule trim_fixed)

section \<open>The top-level fields\<close>

lemma topLevel_InrD:
  assumes "topLevel rt body = Inr f"
  shows "toString rt (js_or (optProp body ''campus'') (JStr ''ADMU'')) = Inr (f_campus f)"
    and "toString rt (js_or (optProp body ''pickup'') (JStr ''Gate 2.5'')) = Inr (f_pickup f)"
    and "toString rt (js_or (optProp body ''paymentMethod'') (JStr ''gcash''))
           = Inr (f_paymentMethod f)"
    and "toString rt (js_or (optProp body ''gcashNumber'') (JStr '''')) = Inr (f_gcashNumber f)"
  using assms by (auto simp: topLevel_def bindE_def split: sum.splits)

text \<open>An array has none of the four fields: every default applies.\<close>

lemma topLevel_array:
  "topLevel rt (JArr xs) =
     Inr \<lparr>f_campus = ''ADMU'', f_pickup = ''Gate 2.5'', f_paymentMethod = ''gcash'',
          f_gcashNumber = ''''\<rparr>"
  by (simp add: topLevel_def optProp_def js_or_def truthy_def toString_def)

lemma toString_primitive:
  assumes "primitive v"
  shows "\<exists>s. toString rt (js_or v (JStr t)) = Inr s"
  using assms by (cases v) (simp_all add: primitive_def js_or_def truthy_def toString_def)

lemma topLevel_primitive:
  assumes "primitive (optProp body ''campus'')" and "primitive (optProp body ''pickup'')"
    and "primitive (optProp body ''paymentMethod'')" and "primitive (optProp body ''gcashNumber'')"
  shows "\<exists>f. topLevel rt body = Inr f"
proof -
  obtain c p m g where
    "toString rt (js_or (optProp body ''campus'') (JStr ''ADMU'')) = Inr c"
    "toString rt (js_or (optProp body ''pickup'') (JStr ''Gate 2.5'')) = Inr p"
    "toString rt (js_or (optProp body ''paymentMethod'') (JStr ''gcash'')) = Inr m"
    "toString rt (js_or (optProp body ''gcashNumber'') (JStr '''')) = Inr g"
    using assms toString_primitive by metis
  then show ?thesis by (simp add: topLevel_def)
qed

text \<open>The definitions that an evaluation of the handler on a concrete request unfolds.\<close>

lemmas handler_defs =
  checkout_def checkout_try_def topLevel_def normalize_def selectItems_def normOne_def
  product_findMany_def order_create_def fromEntries_def totalStep_def createItem_def
  pmGet_def finiteOrNull_def getProp_def optProp_def getOwn_def hasOwn_def js_or_def
  nullish_def truthy_def toString_def ToNumber_def isFinite_def js_gt_def js_add_def
  js_mul_def Math_max_def trim_def isWhiteSpace_def sampleDb_def Let_def

text \<open>
  Claim C10. A request whose body is a bare array cannot carry the top-level fields: every
  order created from one has campus \<open>ADMU\<close>, pickup \<open>Gate 2.5\<close>, payment method \<open>gcash\<close>
  and the empty string as its gcash number, and the response repeats the payment method
  and the pickup point.
\<close>

theorem bare_array_defaults:
  assumes "checkout rt (JArr xs) d = (Created s, d')"
  shows "\<exists>ord. orders d' = orders d @ [ord]
           \<and> campus ord = ''ADMU'' \<and> pickup ord = ''Gate 2.5''
           \<and> paymentMethod ord = ''gcash'' \<and> gcashNumber ord = Some ''''
           \<and> r_paymentMethod s = ''gcash'' \<and> r_pickup s = ''Gate 2.5''"
proof -
  from assms obtain f ns where f: "topLevel rt (JArr xs) = Inr f"
    and s: "s = receipt (length (orders d)) (placed f (catalogPrices d ns) ns)"
    and d': "d' = d\<lparr>orders := orders d @ [placed f (catalogPrices d ns) ns],
              queries := queries d @ [FindProducts (lookupIds ns), CreateOrder]\<rparr>"
    by (rule checkout_CreatedE)
  from f have "f = \<lparr>f_campus = ''ADMU'', f_pickup = ''Gate 2.5'', f_paymentMethod = ''gcash'',
          f_gcashNumber = ''''\<rparr>"
    by (simp add: topLevel_array)
  with s d' show ?thesis by (simp add: placed_def receipt_def)
qed

theorem bare_array_defaults_witness:
  "fst (checkout sampleRuntime
         (JArr [JObj [(''id'', JStr ''p1''), (''qty'', JNum (Fin 2)), (''price'', JNum (Fin 50))]])
         sampleDb)
     = Created \<lparr>orderId = 0, r_total = Fin 100, r_paymentMethod = ''gcash'',
         r_pickup = ''Gate 2.5'', itemCount = 1\<rparr>
   \<and> orders (snd (checkout sampleRuntime
         (JArr [JObj [(''id'', JStr ''p1''), (''qty'', JNum (Fin 2)), (''price'', JNum (Fin 50))]])
         sampleDb))
     = [\<lparr>campus = ''ADMU'', pickup = ''Gate 2.5'', paymentMethod = ''gcash'',
          gcashNumber = Some '''', total = Fin 100,
          items = [\<lparr>oi_productId = ''p1'', oi_qty = Fin 2, oi_price = Fin 50\<rparr>]\<rparr>]"
proof -
  let ?body = "JArr [JObj [(''id'', JStr ''p1''), (''qty'', JNum (Fin 2)),
    (''price'', JNum (Fin 50))]]"
  let ?s = "\<lparr>orderId = 0, r_total = Fin 100, r_paymentMethod = ''gcash'',
    r_pickup = ''Gate 2.5'', itemCount = 1\<rparr>"
  have r: "fst (checkout sampleRuntime ?body sampleDb) = Created ?s"
    by (simp add: handler_defs)
  have o: "orders (snd (checkout sampleRuntime ?body sampleDb))
      = [\<lparr>campus = ''ADMU'', pickup = ''Gate 2.5'', paymentMethod = ''gcash'',
          gcashNumber = Some '''', total = Fin 100,
          items = [\<lparr>oi_productId = ''p1'', oi_qty = Fin 2, oi_price = Fin 50\<rparr>]\<rparr>]"
    by (simp add: handler_defs)
  from r have h: "checkout sampleRuntime ?body sampleDb
      = (Created ?s, snd (checkout sampleRuntime ?body sampleDb))"
    by (simp add: prod_eq_iff)
  from bare_array_defaults [OF h] r o show ?thesis by simp
qed

text \<open>
  Claim C9. On every order that the handler creates, the payment method is the submitted
  one coerced to a string (\<open>gcash\<close> when none is submitted), and the gcash number is stored
  exactly when that payment method is \<open>gcash\<close>: it is then the submitted number coerced to
  a string (the empty string when none is submitted), and \<open>null\<close> otherwise.
\<close>

theorem gcash_number_only_for_gcash:
  assumes "checkout rt body d = (Created s, d')"
  shows "\<exists>ord m g. orders d' = orders d @ [ord]
           \<and> toString rt (js_or (optProp body ''paymentMethod'') (JStr ''gcash'')) = Inr m
           \<and> toString rt (js_or (optProp body ''gcashNumber'') (JStr '''')) = Inr g
           \<and> paymentMethod ord = m
           \<and> gcashNumber ord = (if m = ''gcash'' then Some g else None)"
proof -
  from assms obtain f ns where f: "topLevel rt body = Inr f"
    and d': "d' = d\<lparr>orders := orders d @ [placed f (catalogPrices d ns) ns],
              queries := queries d @ [FindProducts (lookupIds ns), CreateOrder]\<rparr>"
    by (rule checkout_CreatedE)
  let ?ord = "placed f (catalogPrices d ns) ns"
  have "orders d' = orders d @ [?ord]" using d' by simp
  moreover have "paymentMethod ?ord = f_paymentMethod f"
    and "gcashNumber ?ord
           = (if f_paymentMethod f = ''gcash'' then Some (f_gcashNumber f) else None)"
    by (simp_all add: placed_def)
  ultimately show ?thesis using topLevel_InrD(3,4) [OF f] by blast
qed

theorem gcash_number_only_for_gcash_witness:
  "fst (checkout sampleRuntime
         (JObj [(''paymentMethod'', JStr ''cod''), (''gcashNumber'', JStr ''0917''),
                (''items'', JArr [JObj [(''productId'', JStr ''p2''),
                                        (''quantity'', JNum (Fin 3))]])])
         sampleDb)
     = Created \<lparr>orderId = 0, r_total = Fin 120, r_paymentMethod = ''cod'',
         r_pickup = ''Gate 2.5'', itemCount = 1\<rparr>
   \<and> (\<exists>ord. orders (snd (checkout sampleRuntime
         (JObj [(''paymentMethod'', JStr ''cod''), (''gcashNumber'', JStr ''0917''),
                (''items'', JArr [JObj [(''productId'', JStr ''p2''),
                                        (''quantity'', JNum (Fin 3))]])])
         sampleDb)) = orders sampleDb @ [ord]
        \<and> paymentMethod ord = ''cod'' \<and> gcashNumber ord = None)"
proof -
  let ?body = "JObj [(''paymentMethod'', JStr ''cod''), (''gcashNumber'', JStr ''0917''),
    (''items'', JArr [JObj [(''productId'', JStr ''p2''), (''quantity'', JNum (Fin 3))]])]"
  let ?s = "\<lparr>orderId = 0, r_total = Fin 120, r_paymentMethod = ''cod'',
    r_pickup = ''Gate 2.5'', itemCount = 1\<rparr>"
  have r: "fst (checkout sampleRuntime ?body sampleDb) = Created ?s"
    by (simp add: handler_defs)
  have m: "toString sampleRuntime (js_or (optProp ?body ''paymentMethod'') (JStr ''gcash''))
      = Inr ''cod''"
    by (simp add: handler_defs)
  from r have h: "checkout sampleRuntime ?body sampleDb
      = (Created ?s, snd (checkout sampleRuntime ?body sampleDb))"
    by (simp add: prod_eq_iff)
  from gcash_number_only_for_gcash [OF h] m r show ?thesis by auto
qed

text \<open>
  Claim C5, as the handler has it. When the normalized item list is empty, the handler
  reads no catalog entry and creates no order: the store is left as it was. It answers
  with status 422 and the diagnostic body (\<open>error\<close>, \<open>hint\<close> and the received body)
  provided the four top-level fields were coerced to strings without an exception, which
  is so whenever each of them is absent or a primitive; if one of them throws, the
  \<open>catch\<close> block answers with status 500.
\<close>

theorem empty_items_rejected:
  assumes "normalize rt body = Inr []"
  shows "(\<forall>f. topLevel rt body = Inr f \<longrightarrow>
            checkout rt body d = (Rejected ''No items received'' hint body, d))
       \<and> (\<forall>e. topLevel rt body = Inl e \<longrightarrow>
            checkout rt body d = (Failed ''Checkout failed'' e, d))
       \<and> snd (checkout rt body d) = d
       \<and> (primitive (optProp body ''campus'') \<and> primitive (optProp body ''pickup'')
            \<and> primitive (optProp body ''paymentMethod'')
            \<and> primitive (optProp body ''gcashNumber'') \<longrightarrow>
          status (fst (checkout rt body d)) = 422)"
proof -
  have r: "checkout rt body d = (Rejected ''No items received'' hint body, d)"
    if "topLevel rt body = Inr f" for f
    using that assms by (rule checkout_rejected)
  have e: "checkout rt body d = (Failed ''Checkout failed'' e, d)"
    if "topLevel rt body = Inl e" for e
    using that by (rule checkout_failed_fields)
  have "snd (checkout rt body d) = d"
    by (cases "topLevel rt body") (simp_all add: r e)
  moreover have "status (fst (checkout rt body d)) = 422"
    if "primitive (optProp body ''campus'')" "primitive (optProp body ''pickup'')"
      "primitive (optProp body ''paymentMethod'')" "primitive (optProp body ''gcashNumber'')"
  proof -
    from that obtain f where "topLevel rt body = Inr f"
      using topLevel_primitive by blast
    then show ?thesis by (simp add: r)
  qed
  ultimately show ?thesis using r e by blast
qed

theorem empty_items_rejected_witness:
  "normalize sampleRuntime (JObj []) = Inr []
   \<and> checkout sampleRuntime (JObj []) sampleDb
       = (Rejected ''No items received'' hint (JObj []), sampleDb)
   \<and> status (fst (checkout sampleRuntime (JObj []) sampleDb)) = 422"
proof -
  have h: "normalize sampleRuntime (JObj []) = Inr []"
    by (simp add: normalize_def selectItems_def optProp_def getOwn_def)
  have p: "primitive (optProp (JObj []) k)" for k
    by (simp add: optProp_def getOwn_def primitive_def)
  obtain f where f: "topLevel sampleRuntime (JObj []) = Inr f"
    using topLevel_primitive p by blast
  from empty_items_rejected [OF h, of sampleDb] f p h show ?thesis by simp
qed

text \<open>
  The claim as the specification states it fails: the body
  \<open>{"campus": {"toString": 0}}\<close> has no item list, and the handler answers 500.
\<close>

theorem empty_items_counterexample:
  "normalize sampleRuntime (JObj [(''campus'', JObj [(''toString'', JNum (Fin 0))])]) = Inr []
   \<and> status (fst (checkout sampleRuntime
        (JObj [(''campus'', JObj [(''toString'', JNum (Fin 0))])]) sampleDb)) = 500"
  by (simp add: handler_defs)

section \<open>Normalized items\<close>

lemma getProp_optProp:
  assumes "raw \<noteq> JUndefined" and "raw \<noteq> JNull"
  shows "getProp raw k = Inr (optProp raw k)"
  using assms by (cases raw) (simp_all add: getProp_def optProp_def)

text \<open>What a normalized item says about the raw item it comes from.\<close>

lemma normOne_InrD:
  assumes "normOne rt raw = Inr i"
  shows "\<exists>s. ToString rt (js_or (js_or (js_or (optProp raw ''productId'') (optProp raw ''id''))
                 (optProp raw ''name'')) (JStr '''')) = Inr s \<and> productId i = trim s"
    and "ToNumber rt (nullish (nullish (optProp raw ''qty'') (optProp raw ''quantity''))
           (JNum (Fin 1))) = Inr (qty i)"
    and "ToNumber rt (nullish (optProp raw ''price'') (JNum (Fin 0))) = Inr (priceSnap i)"
proof -
  have raw: "raw \<noteq> JUndefined" "raw \<noteq> JNull"
    using assms by (auto simp: normOne_def getProp_def)
  note g = getProp_optProp [OF raw]
  from assms show "\<exists>s. ToString rt (js_or (js_or (js_or (optProp raw ''productId'')
      (optProp raw ''id'')) (optProp raw ''name'')) (JStr '''')) = Inr s \<and> productId i = trim s"
    by (auto simp: normOne_def g bindE_def split: sum.splits)
  from assms show "ToNumber rt (nullish (nullish (optProp raw ''qty'') (optProp raw ''quantity''))
           (JNum (Fin 1))) = Inr (qty i)"
    by (auto simp: normOne_def g bindE_def split: sum.splits)
  from assms show "ToNumber rt (nullish (optProp raw ''price'') (JNum (Fin 0)))
      = Inr (priceSnap i)"
    by (auto simp: normOne_def g bindE_def split: sum.splits)
qed

lemma fromEntries_rev: "fromEntries es = map_of (rev es)"
proof -
  have "foldl (\<lambda>m (k, v). m(k \<mapsto> v)) m es = m ++ map_of (rev es)"
    for m :: "string \<rightharpoonup> jsval"
    by (induction es arbitrary: m) (auto simp: fun_eq_iff map_add_def split: option.splits)
  then show ?thesis by (simp add: fromEntries_def)
qed

text \<open>An identifier that no catalog entry carries has no catalog price.\<close>

lemma catalogPrices_unmatched:
  assumes "k \<notin> p_id ` set (products d)"
  shows "catalogPrices d ns k = None"
proof -
  have "k \<notin> fst ` set (rev (map (\<lambda>p. (p_id p, p_price p))
      (filter (\<lambda>p. p_id p \<in> set (lookupIds ns)) (products d))))"
    using assms by (auto simp: image_iff)
  then show ?thesis
    unfolding catalogPrices_def fromEntries_rev by (rule iffD2 [OF map_of_eq_None_iff])
qed

lemma createItem_qty:
  "oi_qty (createItem priceMap i) = effectiveQty i"
  by (cases "qty i") (simp_all add: createItem_def effectiveQty_def isFinite_def js_gt_def)

lemma effectiveQty_positive: "\<exists>q. effectiveQty i = Fin q \<and> 0 < q"
  by (cases "qty i") (simp_all add: effectiveQty_def)

lemma createItem_price_finite: "\<exists>p. oi_price (createItem priceMap i) = Fin p"
  by (cases "priceSnap i")
    (auto simp: createItem_def finiteOrNull_def isFinite_def
      split: option.splits jsval.splits jsnum.splits)

text \<open>The summand of the total is the stored price times the stored quantity.\<close>

lemma totalStep_createItem:
  "totalStep priceMap acc i
     = js_add acc (js_mul (oi_price (createItem priceMap i)) (oi_qty (createItem priceMap i)))"
  by (simp add: totalStep_def createItem_def Let_def)

text \<open>
  Claim C6. A raw item whose \<open>qty\<close> and \<open>quantity\<close> are both missing, or whose coerced
  quantity is not a finite number greater than 0, is stored with quantity 1 and counts
  its unit price once in the total. For the payload \<open>{cart: [{name: "x", qty: 0, price:
  10}]}\<close> and a catalog without \<open>x\<close> the handler creates an order of total 10.
\<close>

theorem invalid_quantity_counts_as_one:
  "(normOne rt raw = Inr i
      \<and> ((optProp raw ''qty'' \<in> {JUndefined, JNull}
             \<and> optProp raw ''quantity'' \<in> {JUndefined, JNull})
          \<or> \<not> (isFinite (qty i) \<and> js_gt (qty i) (Fin 0)))
     \<longrightarrow> oi_qty (createItem priceMap i) = Fin 1
        \<and> totalStep priceMap acc i
            = js_add acc (js_mul (oi_price (createItem priceMap i)) (Fin 1)))
   \<and> (''x'' \<notin> p_id ` set (products d) \<longrightarrow>
        checkout rt
          (JObj [(''cart'', JArr [JObj [(''name'', JStr ''x''), (''qty'', JNum (Fin 0)),
                                        (''price'', JNum (Fin 10))]])]) d
        = (Created \<lparr>orderId = length (orders d), r_total = Fin 10,
             r_paymentMethod = ''gcash'', r_pickup = ''Gate 2.5'', itemCount = 1\<rparr>,
           d\<lparr>orders := orders d @
                [\<lparr>campus = ''ADMU'', pickup = ''Gate 2.5'', paymentMethod = ''gcash'',
                  gcashNumber = Some '''', total = Fin 10,
                  items = [\<lparr>oi_productId = ''x'', oi_qty = Fin 1, oi_price = Fin 10\<rparr>]\<rparr>],
             queries := queries d @ [FindProducts [''x''], CreateOrder]\<rparr>))"
proof (intro conjI impI)
  assume a: "normOne rt raw = Inr i
      \<and> ((optProp raw ''qty'' \<in> {JUndefined, JNull}
             \<and> optProp raw ''quantity'' \<in> {JUndefined, JNull})
          \<or> \<not> (isFinite (qty i) \<and> js_gt (qty i) (Fin 0)))"
  have "isFinite (qty i) \<and> js_gt (qty i) (Fin 0) \<Longrightarrow> qty i = Fin 1"
  proof -
    assume v: "isFinite (qty i) \<and> js_gt (qty i) (Fin 0)"
    with a have "optProp raw ''qty'' \<in> {JUndefined, JNull}"
      and "optProp raw ''quantity'' \<in> {JUndefined, JNull}" by auto
    then have "nullish (nullish (optProp raw ''qty'') (optProp raw ''quantity''))
        (JNum (Fin 1)) = JNum (Fin 1)"
      by (auto simp: nullish_def)
    with normOne_InrD(2) [of rt raw i] a show "qty i = Fin 1"
      by (simp add: ToNumber_def)
  qed
  then show q: "oi_qty (createItem priceMap i) = Fin 1"
    by (auto simp: createItem_def)
  show "totalStep priceMap acc i
      = js_add acc (js_mul (oi_price (createItem priceMap i)) (Fin 1))"
    by (simp add: totalStep_createItem q)
next
  let ?body = "JObj [(''cart'', JArr [JObj [(''name'', JStr ''x''), (''qty'', JNum (Fin 0)),
    (''price'', JNum (Fin 10))]])]"
  let ?ns = "[\<lparr>productId = ''x'', qty = Fin 0, priceSnap = Fin 10\<rparr>]"
  let ?f = "\<lparr>f_campus = ''ADMU'', f_pickup = ''Gate 2.5'', f_paymentMethod = ''gcash'',
    f_gcashNumber = ''''\<rparr>"
  assume "''x'' \<notin> p_id ` set (products d)"
  then have pm: "catalogPrices d ?ns ''x'' = None"
    by (rule catalogPrices_unmatched)
  have f: "topLevel rt ?body = Inr ?f"
    by (simp add: topLevel_def optProp_def getOwn_def js_or_def truthy_def toString_def)
  have n: "normalize rt ?body = Inr ?ns"
    by (simp add: normalize_def selectItems_def normOne_def getProp_def optProp_def getOwn_def
        js_or_def nullish_def truthy_def ToNumber_def trim_def isWhiteSpace_def)
  have p: "placed ?f (catalogPrices d ?ns) ?ns
      = \<lparr>campus = ''ADMU'', pickup = ''Gate 2.5'', paymentMethod = ''gcash'',
          gcashNumber = Some '''', total = Fin 10,
          items = [\<lparr>oi_productId = ''x'', oi_qty = Fin 1, oi_price = Fin 10\<rparr>]\<rparr>"
    by (simp add: placed_def totalStep_def createItem_def pmGet_def pm finiteOrNull_def
        isFinite_def js_gt_def js_add_def js_mul_def Math_max_def)
  have l: "lookupIds ?ns = [''x'']"
    by (simp add: lookupIds_def)
  from checkout_created [OF f n, of d]
  show "checkout rt ?body d
        = (Created \<lparr>orderId = length (orders d), r_total = Fin 10,
             r_paymentMethod = ''gcash'', r_pickup = ''Gate 2.5'', itemCount = 1\<rparr>,
           d\<lparr>orders := orders d @
                [\<lparr>campus = ''ADMU'', pickup = ''Gate 2.5'', paymentMethod = ''gcash'',
                  gcashNumber = Some '''', total = Fin 10,
                  items = [\<lparr>oi_productId = ''x'', oi_qty = Fin 1, oi_price = Fin 10\<rparr>]\<rparr>],
             queries := queries d @ [FindProducts [''x''], CreateOrder]\<rparr>)"
    by (simp add: p l receipt_def)
qed

theorem invalid_quantity_counts_as_one_witness:
  "normOne sampleRuntime (JObj [(''name'', JStr ''x''), (''qty'', JNum (Fin (- 3))),
       (''price'', JNum (Fin 10))])
     = Inr \<lparr>productId = ''x'', qty = Fin (- 3), priceSnap = Fin 10\<rparr>
   \<and> oi_qty (createItem Map.empty \<lparr>productId = ''x'', qty = Fin (- 3), priceSnap = Fin 10\<rparr>)
       = Fin 1
   \<and> totalStep Map.empty (Fin 5) \<lparr>productId = ''x'', qty = Fin (- 3), priceSnap = Fin 10\<rparr>
       = Fin 15
   \<and> ''x'' \<notin> p_id ` set (products sampleDb)
   \<and> fst (checkout sampleRuntime
        (JObj [(''cart'', JArr [JObj [(''name'', JStr ''x''), (''qty'', JNum (Fin 0)),
                                      (''price'', JNum (Fin 10))]])]) sampleDb)
       = Created \<lparr>orderId = 0, r_total = Fin 10, r_paymentMethod = ''gcash'',
           r_pickup = ''Gate 2.5'', itemCount = 1\<rparr>"
proof -
  let ?raw = "JObj [(''name'', JStr ''x''), (''qty'', JNum (Fin (- 3))),
    (''price'', JNum (Fin 10))]"
  let ?i = "\<lparr>productId = ''x'', qty = Fin (- 3), priceSnap = Fin 10\<rparr>"
  have n: "normOne sampleRuntime ?raw = Inr ?i"
    by (simp add: handler_defs)
  have v: "\<not> (isFinite (qty ?i) \<and> js_gt (qty ?i) (Fin 0))"
    by (simp add: js_gt_def)
  have x: "''x'' \<notin> p_id ` set (products sampleDb)"
    by (simp add: sampleDb_def)
  have p: "oi_price (createItem Map.empty ?i) = Fin 10"
    by (simp add: createItem_def pmGet_def finiteOrNull_def isFinite_def)
  from invalid_quantity_counts_as_one
    [of sampleRuntime ?raw ?i Map.empty "Fin 5" sampleDb] n v x p
  show ?thesis by (simp add: js_add_def js_mul_def sampleDb_def)
qed

text \<open>
  Claim C7, as the handler has it. The identifier of a normalized item is a trimmed
  string. Its \<open>qty\<close> is \<open>Number(qty ?? quantity ?? 1)\<close> and its \<open>priceSnap\<close> is
  \<open>Number(price ?? 0)\<close> as they are: the submitted number when the field holds a number,
  1 and 0 when the field is missing. The list itself may so hold a zero, negative or
  non-finite quantity and a negative or non-finite price. The replacement is made where
  the item is used: the quantity stored on the order item is the normalized one when
  that is finite and greater than 0, else 1; the price stored, for an identifier without
  a finite catalog price, is the snapshot when that is finite, else 0; both are finite,
  the quantity greater than 0, and the total counts the stored price times the stored
  quantity.
\<close>

theorem normalized_item_properties:
  assumes "normOne rt raw = Inr i"
  shows "trim (productId i) = productId i
       \<and> (productId i = [] \<or> (\<not> isWhiteSpace (hd (productId i))
                                  \<and> \<not> isWhiteSpace (last (productId i))))
       \<and> ToNumber rt (nullish (nullish (optProp raw ''qty'') (optProp raw ''quantity''))
             (JNum (Fin 1))) = Inr (qty i)
       \<and> ToNumber rt (nullish (optProp raw ''price'') (JNum (Fin 0))) = Inr (priceSnap i)
       \<and> (\<forall>n. optProp raw ''qty'' = JNum n \<longrightarrow> qty i = n)
       \<and> (\<forall>n. optProp raw ''qty'' \<in> {JUndefined, JNull} \<and> optProp raw ''quantity'' = JNum n
              \<longrightarrow> qty i = n)
       \<and> (\<forall>n. optProp raw ''price'' = JNum n \<longrightarrow> priceSnap i = n)
       \<and> (optProp raw ''qty'' \<in> {JUndefined, JNull}
            \<and> optProp raw ''quantity'' \<in> {JUndefined, JNull} \<longrightarrow> qty i = Fin 1)
       \<and> (optProp raw ''price'' \<in> {JUndefined, JNull} \<longrightarrow> priceSnap i = Fin 0)
       \<and> oi_qty (createItem priceMap i)
           = (if isFinite (qty i) \<and> js_gt (qty i) (Fin 0) then qty i else Fin 1)
       \<and> (\<exists>q. oi_qty (createItem priceMap i) = Fin q \<and> 0 < q)
       \<and> (finiteOrNull (pmGet priceMap (productId i)) = None \<longrightarrow>
            oi_price (createItem priceMap i)
              = (if isFinite (priceSnap i) then priceSnap i else Fin 0))
       \<and> (\<exists>p. oi_price (createItem priceMap i) = Fin p)
       \<and> (\<forall>acc. totalStep priceMap acc i
              = js_add acc (js_mul (oi_price (createItem priceMap i))
                                   (oi_qty (createItem priceMap i))))"
proof -
  let ?q = "nullish (nullish (optProp raw ''qty'') (optProp raw ''quantity'')) (JNum (Fin 1))"
  let ?p = "nullish (optProp raw ''price'') (JNum (Fin 0))"
  from normOne_InrD(1) [OF assms] obtain s where s: "productId i = trim s" by blast
  note q = normOne_InrD(2) [OF assms]
  note p = normOne_InrD(3) [OF assms]
  have 1: "trim (productId i) = productId i"
    unfolding s by (rule trim_idem)
  have 2: "productId i = [] \<or> (\<not> isWhiteSpace (hd (productId i))
      \<and> \<not> isWhiteSpace (last (productId i)))"
    unfolding s by (rule trim_ends)
  have 5: "qty i = n" if "optProp raw ''qty'' = JNum n" for n
  proof -
    from that have "?q = JNum n" by (simp add: nullish_def)
    with q show ?thesis by (simp add: ToNumber_def)
  qed
  have 6: "qty i = n"
    if "optProp raw ''qty'' \<in> {JUndefined, JNull} \<and> optProp raw ''quantity'' = JNum n" for n
  proof -
    from that have "?q = JNum n" by (auto simp: nullish_def)
    with q show ?thesis by (simp add: ToNumber_def)
  qed
  have 7: "priceSnap i = n" if "optProp raw ''price'' = JNum n" for n
  proof -
    from that have "?p = JNum n" by (simp add: nullish_def)
    with p show ?thesis by (simp add: ToNumber_def)
  qed
  have 8: "qty i = Fin 1"
    if "optProp raw ''qty'' \<in> {JUndefined, JNull}
      \<and> optProp raw ''quantity'' \<in> {JUndefined, JNull}"
  proof -
    from that have "?q = JNum (Fin 1)" by (auto simp: nullish_def)
    with q show ?thesis by (simp add: ToNumber_def)
  qed
  have 9: "priceSnap i = Fin 0" if "optProp raw ''price'' \<in> {JUndefined, JNull}"
  proof -
    from that have "?p = JNum (Fin 0)" by (auto simp: nullish_def)
    with p show ?thesis by (simp add: ToNumber_def)
  qed
  have 10: "oi_qty (createItem priceMap i)
      = (if isFinite (qty i) \<and> js_gt (qty i) (Fin 0) then qty i else Fin 1)"
    by (simp add: createItem_def)
  have 11: "\<exists>q. oi_qty (createItem priceMap i) = Fin q \<and> 0 < q"
    unfolding createItem_qty by (rule effectiveQty_positive)
  have 12: "oi_price (createItem priceMap i)
      = (if isFinite (priceSnap i) then priceSnap i else Fin 0)"
    if "finiteOrNull (pmGet priceMap (productId i)) = None"
    using that by (simp add: createItem_def)
  have 13: "\<exists>p. oi_price (createItem priceMap i) = Fin p"
    by (rule createItem_price_finite)
  have 14: "totalStep priceMap acc i
      = js_add acc (js_mul (oi_price (createItem priceMap i))
                           (oi_qty (createItem priceMap i)))" for acc
    by (rule totalStep_createItem)
  show ?thesis
  proof (intro conjI allI impI)
    show "trim (productId i) = productId i" by (rule 1)
    show "productId i = [] \<or> (\<not> isWhiteSpace (hd (productId i))
      \<and> \<not> isWhiteSpace (last (productId i)))" by (rule 2)
    show "ToNumber rt ?q = Inr (qty i)" by (rule q)
    show "ToNumber rt ?p = Inr (priceSnap i)" by (rule p)
    show "qty i = n" if "optProp raw ''qty'' = JNum n" for n
      using that by (rule 5)
    show "qty i = n"
      if "optProp raw ''qty'' \<in> {JUndefined, JNull} \<and> optProp raw ''quantity'' = JNum n" for n
      using that by (rule 6)
    show "priceSnap i = n" if "optProp raw ''price'' = JNum n" for n
      using that by (rule 7)
    show "qty i = Fin 1"
      if "optProp raw ''qty'' \<in> {JUndefined, JNull}
        \<and> optProp raw ''quantity'' \<in> {JUndefined, JNull}"
      using that by (rule 8)
    show "priceSnap i = Fin 0" if "optProp raw ''price'' \<in> {JUndefined, JNull}"
      using that by (rule 9)
    show "oi_qty (createItem priceMap i)
      = (if isFinite (qty i) \<and> js_gt (qty i) (Fin 0) then qty i else Fin 1)" by (rule 10)
    show "\<exists>q. oi_qty (createItem priceMap i) = Fin q \<and> 0 < q" by (rule 11)
    show "oi_price (createItem priceMap i)
      = (if isFinite (priceSnap i) then priceSnap i else Fin 0)"
      if "finiteOrNull (pmGet priceMap (productId i)) = None"
      using that by (rule 12)
    show "\<exists>p. oi_price (createItem priceMap i) = Fin p" by (rule 13)
    show "totalStep priceMap acc i
      = js_add acc (js_mul (oi_price (createItem priceMap i))
                           (oi_qty (createItem priceMap i)))" for acc
      by (rule 14)
  qed
qed

theorem normalized_item_properties_witness:
  "normOne sampleRuntime (JObj [(''name'', JStr ''  x ''), (''quantity'', JNum (Fin 7)),
       (''price'', JNum (Fin 3))])
     = Inr \<lparr>productId = ''x'', qty = Fin 7, priceSnap = Fin 3\<rparr>
   \<and> createItem Map.empty \<lparr>productId = ''x'', qty = Fin 7, priceSnap = Fin 3\<rparr>
       = \<lparr>oi_productId = ''x'', oi_qty = Fin 7, oi_price = Fin 3\<rparr>
   \<and> totalStep Map.empty (Fin 4) \<lparr>productId = ''x'', qty = Fin 7, priceSnap = Fin 3\<rparr>
       = Fin 25
   \<and> normOne sampleRuntime (JObj [(''name'', JStr ''y''), (''qty'', JNum (Fin 0)),
       (''price'', JNum (Fin (- 5)))])
     = Inr \<lparr>productId = ''y'', qty = Fin 0, priceSnap = Fin (- 5)\<rparr>
   \<and> createItem Map.empty \<lparr>productId = ''y'', qty = Fin 0, priceSnap = Fin (- 5)\<rparr>
       = \<lparr>oi_productId = ''y'', oi_qty = Fin 1, oi_price = Fin (- 5)\<rparr>"
proof -
  let ?a = "JObj [(''name'', JStr ''  x ''), (''quantity'', JNum (Fin 7)),
    (''price'', JNum (Fin 3))]"
  let ?i = "\<lparr>productId = ''x'', qty = Fin 7, priceSnap = Fin 3\<rparr>"
  let ?b = "JObj [(''name'', JStr ''y''), (''qty'', JNum (Fin 0)), (''price'', JNum (Fin (- 5)))]"
  let ?k = "\<lparr>productId = ''y'', qty = Fin 0, priceSnap = Fin (- 5)\<rparr>"
  have a: "normOne sampleRuntime ?a = Inr ?i"
    by (simp add: handler_defs)
  have b: "normOne sampleRuntime ?b = Inr ?k"
    by (simp add: handler_defs)
  have u: "finiteOrNull (pmGet Map.empty s) = None" for s
    by (simp add: pmGet_def finiteOrNull_def)
  have pa: "oi_productId (createItem Map.empty ?i) = ''x''"
    and pb: "oi_productId (createItem Map.empty ?k) = ''y''"
    by (simp_all add: createItem_def)
  from normalized_item_properties [OF a, of Map.empty] u
  have ia: "oi_qty (createItem Map.empty ?i) = Fin 7"
    and ib: "oi_price (createItem Map.empty ?i) = Fin 3"
    and ic: "totalStep Map.empty (Fin 4) ?i
      = js_add (Fin 4) (js_mul (oi_price (createItem Map.empty ?i))
          (oi_qty (createItem Map.empty ?i)))"
    by (simp_all add: isFinite_def js_gt_def)
  from normalized_item_properties [OF b, of Map.empty] u
  have ka: "oi_qty (createItem Map.empty ?k) = Fin 1"
    and kb: "oi_price (createItem Map.empty ?k) = Fin (- 5)"
    by (simp_all add: isFinite_def js_gt_def)
  have t: "totalStep Map.empty (Fin 4) ?i = Fin 25"
    unfolding ic ia ib by (simp add: js_add_def js_mul_def)
  have ci: "createItem Map.empty ?i = \<lparr>oi_productId = ''x'', oi_qty = Fin 7, oi_price = Fin 3\<rparr>"
    using pa ia ib by (cases "createItem Map.empty ?i") simp
  have ck: "createItem Map.empty ?k
      = \<lparr>oi_productId = ''y'', oi_qty = Fin 1, oi_price = Fin (- 5)\<rparr>"
    using pb ka kb by (cases "createItem Map.empty ?k") simp
  from a b ci ck t show ?thesis by (intro conjI)
qed

text \<open>
  The claim as the specification states it fails: the raw item
  \<open>{name: "x", qty: 0, price: -5}\<close> is normalized to an item of quantity 0 and price
  snapshot -5.
\<close>

theorem normalized_item_counterexample:
  "normOne sampleRuntime (JObj [(''name'', JStr ''x''), (''qty'', JNum (Fin 0)),
       (''price'', JNum (Fin (- 5)))])
     = Inr \<lparr>productId = ''x'', qty = Fin 0, priceSnap = Fin (- 5)\<rparr>
   \<and> \<not> normItemInvariant \<lparr>productId = ''x'', qty = Fin 0, priceSnap = Fin (- 5)\<rparr>
   \<and> \<not> js_gt (Fin 0) (Fin 0)
   \<and> js_gt (Fin 0) (Fin (- 5))"
  by (simp add: handler_defs normItemInvariant_def)

section \<open>The identifier\<close>

lemma truthy_nonEmptyField:
  assumes "v \<noteq> JBool False" and "v \<noteq> JNum (Fin 0)" and "v \<noteq> JNum NaN"
  shows "truthy v = nonEmptyField v"
  using assms by (cases v) (auto simp: truthy_def nonEmptyField_def)

lemma js_or_find:
  "js_or (js_or (js_or a b) c) d = (case find truthy [a, b, c] of None \<Rightarrow> d | Some v \<Rightarrow> v)"
  by (simp add: js_or_def)

text \<open>
  Claim C8, as the handler has it. The normalized identifier is the first truthy of the
  fields \<open>productId\<close>, \<open>id\<close>, \<open>name\<close>, coerced to a string and trimmed, and the empty
  string when none is truthy: a field that is absent, \<open>null\<close>, the empty string,
  \<open>false\<close>, the number 0 or NaN is passed over. A string of white space only is truthy,
  is taken and is trimmed to the empty string. Where none of the three fields is
  \<open>false\<close>, 0 or NaN, this is the first non-empty field of the specification.
\<close>

theorem identifier_first_truthy:
  assumes "normOne rt raw = Inr i"
  shows "(case find truthy [optProp raw ''productId'', optProp raw ''id'', optProp raw ''name'']
          of None \<Rightarrow> productId i = []
           | Some v \<Rightarrow> (\<exists>s. ToString rt v = Inr s \<and> productId i = trim s))
       \<and> ((\<forall>v \<in> set [optProp raw ''productId'', optProp raw ''id'', optProp raw ''name''].
              v \<noteq> JBool False \<and> v \<noteq> JNum (Fin 0) \<and> v \<noteq> JNum NaN)
            \<longrightarrow> spec_identifier rt raw = Inr (productId i))"
proof -
  let ?fs = "[optProp raw ''productId'', optProp raw ''id'', optProp raw ''name'']"
  from normOne_InrD(1) [OF assms] obtain s where
    s: "ToString rt (case find truthy ?fs of None \<Rightarrow> JStr '''' | Some v \<Rightarrow> v) = Inr s"
    and p: "productId i = trim s"
    unfolding js_or_find by blast
  have a: "(case find truthy ?fs of None \<Rightarrow> productId i = []
           | Some v \<Rightarrow> (\<exists>s. ToString rt v = Inr s \<and> productId i = trim s))"
  proof (cases "find truthy ?fs")
    case None
    with s p show ?thesis by (simp add: trim_def)
  next
    case (Some v)
    with s p show ?thesis by auto
  qed
  have b: "spec_identifier rt raw = Inr (productId i)"
    if h: "\<forall>v \<in> set ?fs. v \<noteq> JBool False \<and> v \<noteq> JNum (Fin 0) \<and> v \<noteq> JNum NaN"
  proof -
    have "find nonEmptyField ?fs = find truthy ?fs"
      by (rule find_cong) (use h truthy_nonEmptyField in auto)
    moreover have "(case find truthy ?fs of None \<Rightarrow> Inr []
        | Some v \<Rightarrow> bindE (ToString rt v) (\<lambda>s. Inr (trim s))) = Inr (productId i)"
    proof (cases "find truthy ?fs")
      case None
      with s p show ?thesis by (simp add: trim_def)
    next
      case (Some v)
      with s p show ?thesis by simp
    qed
    ultimately show ?thesis by (simp only: spec_identifier_def)
  qed
  from a b show ?thesis by blast
qed

theorem identifier_first_truthy_witness:
  "normOne sampleRuntime (JObj [(''productId'', JStr ''''), (''id'', JNum (Fin 12)),
       (''name'', JStr ''x'')])
     = Inr \<lparr>productId = ''12'', qty = Fin 1, priceSnap = Fin 0\<rparr>
   \<and> spec_identifier sampleRuntime (JObj [(''productId'', JStr ''''), (''id'', JNum (Fin 12)),
       (''name'', JStr ''x'')]) = Inr ''12''"
proof -
  let ?raw = "JObj [(''productId'', JStr ''''), (''id'', JNum (Fin 12)), (''name'', JStr ''x'')]"
  let ?i = "\<lparr>productId = ''12'', qty = Fin 1, priceSnap = Fin 0\<rparr>"
  have d: "digits 12 = ''12''"
    by code_simp
  have "shortestDigits 12 = ''12''"
    by (simp add: shortestDigits_def candidate_def d map_filter_simps Let_def)
  then have n: "normOne sampleRuntime ?raw = Inr ?i"
    by (simp add: handler_defs Number_toString_def)
  have h: "\<forall>v \<in> set [optProp ?raw ''productId'', optProp ?raw ''id'', optProp ?raw ''name''].
      v \<noteq> JBool False \<and> v \<noteq> JNum (Fin 0) \<and> v \<noteq> JNum NaN"
    by (simp add: optProp_def getOwn_def)
  from identifier_first_truthy [OF n] h n show ?thesis by simp
qed

text \<open>
  The claim as the specification states it fails on a numeric 0 identifier: for the raw
  item \<open>{productId: 0}\<close> the handler's identifier is the empty string, not \<open>0\<close>.
\<close>

theorem identifier_counterexample:
  "normOne sampleRuntime (JObj [(''productId'', JNum (Fin 0))])
     = Inr \<lparr>productId = '''', qty = Fin 1, priceSnap = Fin 0\<rparr>
   \<and> spec_identifier sampleRuntime (JObj [(''productId'', JNum (Fin 0))]) = Inr ''0''"
  by (simp add: handler_defs spec_identifier_def nonEmptyField_def Number_toString_def)

section \<open>Prices and the total\<close>

lemma map_of_rev_distinct:
  assumes "distinct (map fst xs)"
  shows "map_of (rev xs) = map_of xs"
  using assms
proof (induction xs)
  case Nil
  then show ?case by simp
next
  case (Cons x xs)
  then have ih: "map_of (rev xs) = map_of xs" and new: "fst x \<notin> fst ` set xs" by simp_all
  from new have none: "map_of xs (fst x) = None"
    by (simp add: map_of_eq_None_iff)
  show ?case
  proof (rule ext)
    fix k
    show "map_of (rev (x # xs)) k = map_of (x # xs) k"
      using none by (cases x) (auto simp: map_add_def ih split: option.splits)
  qed
qed

lemma map_of_catalog_find:
  "map_of (map (\<lambda>p. (p_id p, p_price p)) catalog) k
     = map_option p_price (find (\<lambda>p. p_id p = k) catalog)"
  by (induction catalog) auto

lemma map_of_catalog_filter:
  assumes "k \<in> S"
  shows "map_of (map (\<lambda>p. (p_id p, p_price p)) (filter (\<lambda>p. p_id p \<in> S) catalog)) k
     = map_of (map (\<lambda>p. (p_id p, p_price p)) catalog) k"
  using assms by (induction catalog) auto

text \<open>
  With unique catalog identifiers, the price map of the handler holds for a looked-up
  identifier the price of the catalog entry that carries it.
\<close>

lemma catalogPrices_lookup:
  assumes "distinct (map p_id (products d))" and "k \<in> set (lookupIds ns)"
  shows "catalogPrices d ns k = map_option p_price (find (\<lambda>p. p_id p = k) (products d))"
proof -
  let ?found = "filter (\<lambda>p. p_id p \<in> set (lookupIds ns)) (products d)"
  let ?es = "map (\<lambda>p. (p_id p, p_price p)) ?found"
  have "distinct (map p_id ?found)"
    using assms(1) by (rule distinct_map_filter)
  then have "distinct (map fst ?es)" by (simp add: comp_def)
  then have "map_of (rev ?es) = map_of ?es" by (rule map_of_rev_distinct)
  then have "catalogPrices d ns k = map_of ?es k"
    by (simp add: catalogPrices_def fromEntries_rev)
  also have "\<dots> = map_of (map (\<lambda>p. (p_id p, p_price p)) (products d)) k"
    using assms(2) by (rule map_of_catalog_filter)
  finally show ?thesis by (simp only: map_of_catalog_find)
qed

lemma catalogPrices_not_looked_up:
  assumes "k \<notin> set (lookupIds ns)"
  shows "catalogPrices d ns k = None"
proof -
  have "k \<notin> fst ` set (rev (map (\<lambda>p. (p_id p, p_price p))
      (filter (\<lambda>p. p_id p \<in> set (lookupIds ns)) (products d))))"
    using assms by (auto simp: image_iff)
  then show ?thesis
    unfolding catalogPrices_def fromEntries_rev by (rule iffD2 [OF map_of_eq_None_iff])
qed

lemma createItem_price_unmatched:
  assumes "priceMap (productId i) = None"
  shows "oi_price (createItem priceMap i) = snapshotOrZero i"
  using assms
  by (cases "priceSnap i")
    (simp_all add: createItem_def pmGet_def finiteOrNull_def snapshotOrZero_def isFinite_def)

text \<open>The stored price is the resolved price of the specification.\<close>

lemma createItem_price_resolved:
  assumes "distinct (map p_id (products d))" and "i \<in> set ns"
  shows "oi_price (createItem (catalogPrices d ns) i) = resolvedPrice (products d) i"
proof (cases "productId i = []")
  case True
  then have "productId i \<notin> set (lookupIds ns)"
    by (auto simp: lookupIds_def)
  then have "catalogPrices d ns (productId i) = None"
    by (rule catalogPrices_not_looked_up)
  then show ?thesis
    using True by (simp add: createItem_price_unmatched resolvedPrice_def)
next
  case False
  with assms(2) have "productId i \<in> set (lookupIds ns)"
    by (auto simp: lookupIds_def)
  with assms(1) have pm: "catalogPrices d ns (productId i)
      = map_option p_price (find (\<lambda>p. p_id p = productId i) (products d))"
    by (rule catalogPrices_lookup)
  show ?thesis
  proof (cases "find (\<lambda>p. p_id p = productId i) (products d)")
    case None
    with pm False show ?thesis
      by (simp add: createItem_price_unmatched resolvedPrice_def)
  next
    case (Some p)
    with pm False show ?thesis
      by (cases "priceSnap i")
        (auto simp: createItem_def pmGet_def finiteOrNull_def resolvedPrice_def
          snapshotOrZero_def isFinite_def split: jsval.splits jsnum.splits)
  qed
qed

lemma find_unique_id:
  assumes "distinct (map p_id catalog)" and "p \<in> set catalog"
  shows "find (\<lambda>q. p_id q = p_id p) catalog = Some p"
  using assms by (induction catalog) (auto simp: image_iff)

text \<open>
  The loop of \<open>reduce\<close> adds up, in doubles, the stored prices times the stored
  quantities.
\<close>

lemma foldl_totalStep:
  "foldl (totalStep priceMap) acc ns
     = foldl (\<lambda>s (p, q). js_add s (js_mul p q)) acc (priced (map (createItem priceMap) ns))"
  by (induction ns arbitrary: acc) (simp_all add: priced_def totalStep_createItem)

lemma placed_total:
  "total (placed f priceMap ns)
     = Math_max (Fin 0) (Math_round (sumProducts (priced (items (placed f priceMap ns)))))"
  by (simp add: placed_def foldl_totalStep sumProducts_def)


text \<open>What \<open>Math.max(0, Math.round(s))\<close> is, case by case.\<close>

lemma clamp_round_Fin:
  "Math_max (Fin 0) (Math_round (Fin x)) = Fin (max 0 (of_int \<lfloor>x + 1 / 2\<rfloor>))"
  by (simp add: Math_round_def Math_max_def)

lemma clamp_round_other:
  "Math_max (Fin 0) (Math_round PInf) = PInf"
  "Math_max (Fin 0) (Math_round NInf) = Fin 0"
  "Math_max (Fin 0) (Math_round NaN) = NaN"
  by (simp_all add: Math_round_def Math_max_def)

lemma clamp_round_not_negative: "\<not> js_gt (Fin 0) (Math_max (Fin 0) (Math_round s))"
  by (cases s) (simp_all add: Math_round_def Math_max_def js_gt_def)

text \<open>Where nothing is rounded, the sum in doubles is the exact sum.\<close>

lemma exactFrom_foldl:
  assumes "exactFrom a pqs"
  shows "foldl (\<lambda>s (p, q). js_add s (js_mul p q)) (Fin a) pqs = Fin (a + exactSum pqs)"
  using assms
proof (induction a pqs rule: exactFrom.induct)
  case (1 a)
  then show ?case by (simp add: exactSum_def)
next
  case (2 a p q pqs)
  then have pq: "roundDouble (p * q) = Fin (p * q)"
    and s: "roundDouble (a + p * q) = Fin (a + p * q)"
    and r: "exactFrom (a + p * q) pqs" by simp_all
  have "js_add (Fin a) (js_mul (Fin p) (Fin q)) = Fin (a + p * q)"
    by (simp add: js_add_def js_mul_def pq s)
  then have "foldl (\<lambda>s (p, q). js_add s (js_mul p q)) (Fin a) ((Fin p, Fin q) # pqs)
      = Fin (a + p * q + exactSum pqs)"
    using "2.IH" [OF r] by simp
  then show ?case by (simp add: exactSum_def num_def add.assoc)
qed simp_all

lemma exactFrom_sumProducts:
  assumes "exactFrom 0 pqs"
  shows "sumProducts pqs = Fin (exactSum pqs)"
  using exactFrom_foldl [OF assms] by (simp add: sumProducts_def)






text \<open>
  Claim C2, as the handler has it. On every order that the handler creates, the stored
  prices and quantities are finite numbers, the quantities greater than 0, and the total,
  which the response repeats, is \<open>Math.max(0, Math.round(sum))\<close> for the sum of price
  times quantity over the stored items, added up in doubles from left to right. The total
  is never negative: for a finite sum it is the rounded sum when the sum is at least
  minus one half and 0 when it is lower; it is 0 for a sum of minus infinity, and the sum
  itself when that is infinity or NaN. Where no product and no partial sum is rounded,
  the sum is the exact one.
\<close>

theorem stored_total_consistent:
  assumes "checkout rt body d = (Created s, d')"
  shows "\<exists>ord. orders d' = orders d @ [ord]
           \<and> r_total s = total ord
           \<and> (\<forall>it \<in> set (items ord). \<exists>p q. oi_price it = Fin p \<and> oi_qty it = Fin q \<and> 0 < q)
           \<and> total ord = Math_max (Fin 0) (Math_round (sumProducts (priced (items ord))))
           \<and> \<not> js_gt (Fin 0) (total ord)
           \<and> (\<forall>x. sumProducts (priced (items ord)) = Fin x \<longrightarrow>
                  total ord = Fin (max 0 (of_int \<lfloor>x + 1 / 2\<rfloor>)))
           \<and> (\<forall>x. sumProducts (priced (items ord)) = Fin x \<and> - 1 / 2 \<le> x \<longrightarrow>
                  total ord = Math_round (sumProducts (priced (items ord))))
           \<and> (\<forall>x. sumProducts (priced (items ord)) = Fin x \<and> x < - 1 / 2 \<longrightarrow>
                  total ord = Fin 0)
           \<and> (sumProducts (priced (items ord)) = PInf \<longrightarrow> total ord = PInf)
           \<and> (sumProducts (priced (items ord)) = NInf \<longrightarrow> total ord = Fin 0)
           \<and> (sumProducts (priced (items ord)) = NaN \<longrightarrow> total ord = NaN)
           \<and> (exactFrom 0 (priced (items ord)) \<longrightarrow>
                  sumProducts (priced (items ord)) = Fin (exactSum (priced (items ord))))"
proof -
  from assms obtain f ns
    where s: "s = receipt (length (orders d)) (placed f (catalogPrices d ns) ns)"
      and d': "d' = d\<lparr>orders := orders d @ [placed f (catalogPrices d ns) ns],
              queries := queries d @ [FindProducts (lookupIds ns), CreateOrder]\<rparr>"
    by (rule checkout_CreatedE)
  let ?ord = "placed f (catalogPrices d ns) ns"
  let ?S = "sumProducts (priced (items ?ord))"
  have 1: "orders d' = orders d @ [?ord]" using d' by simp
  have 2: "r_total s = total ?ord" using s by (simp add: receipt_def)
  have 3: "\<forall>it \<in> set (items ?ord). \<exists>p q. oi_price it = Fin p \<and> oi_qty it = Fin q \<and> 0 < q"
  proof
    fix it
    assume "it \<in> set (items ?ord)"
    then obtain i where it: "it = createItem (catalogPrices d ns) i"
      by (auto simp: placed_def)
    obtain p where "oi_price it = Fin p"
      unfolding it using createItem_price_finite by blast
    moreover obtain q where "oi_qty it = Fin q" and "0 < q"
      unfolding it createItem_qty using effectiveQty_positive by blast
    ultimately show "\<exists>p q. oi_price it = Fin p \<and> oi_qty it = Fin q \<and> 0 < q" by blast
  qed
  have 4: "total ?ord = Math_max (Fin 0) (Math_round ?S)"
    by (rule placed_total)
  show ?thesis
  proof (intro exI [of _ ?ord] conjI allI impI)
    show "orders d' = orders d @ [?ord]" by (rule 1)
    show "r_total s = total ?ord" by (rule 2)
    show "\<forall>it \<in> set (items ?ord). \<exists>p q. oi_price it = Fin p \<and> oi_qty it = Fin q \<and> 0 < q"
      by (rule 3)
    show "total ?ord = Math_max (Fin 0) (Math_round ?S)" by (rule 4)
    show "\<not> js_gt (Fin 0) (total ?ord)"
      unfolding 4 by (rule clamp_round_not_negative)
    show "total ?ord = Fin (max 0 (of_int \<lfloor>x + 1 / 2\<rfloor>))" if "?S = Fin x" for x
      unfolding 4 that by (rule clamp_round_Fin)
    show "total ?ord = Math_round ?S" if "?S = Fin x \<and> - 1 / 2 \<le> x" for x
    proof -
      from that have "0 \<le> \<lfloor>x + 1 / 2\<rfloor>" by simp
      with that show ?thesis
        unfolding 4 by (simp add: clamp_round_Fin) (simp add: Math_round_def)
    qed
    show "total ?ord = Fin 0" if "?S = Fin x \<and> x < - 1 / 2" for x
    proof -
      from that have "\<lfloor>x + 1 / 2\<rfloor> < 0" by (simp add: floor_less_iff)
      with that show ?thesis
        unfolding 4 by (simp add: clamp_round_Fin)
    qed
    show "total ?ord = PInf" if "?S = PInf"
      unfolding 4 that by (rule clamp_round_other)
    show "total ?ord = Fin 0" if "?S = NInf"
      unfolding 4 that by (rule clamp_round_other)
    show "total ?ord = NaN" if "?S = NaN"
      unfolding 4 that by (rule clamp_round_other)
    show "?S = Fin (exactSum (priced (items ?ord)))" if "exactFrom 0 (priced (items ?ord))"
      using that by (rule exactFrom_sumProducts)
  qed
qed

theorem stored_total_consistent_witness:
  "fst (checkout sampleRuntime
         (JObj [(''cart'', JArr [JObj [(''name'', JStr ''x''), (''qty'', JNum (Fin 1)),
                                       (''price'', JNum (Fin (- 10)))]])]) sampleDb)
     = Created \<lparr>orderId = 0, r_total = Fin 0, r_paymentMethod = ''gcash'',
         r_pickup = ''Gate 2.5'', itemCount = 1\<rparr>
   \<and> (\<exists>ord. orders (snd (checkout sampleRuntime
         (JObj [(''cart'', JArr [JObj [(''name'', JStr ''x''), (''qty'', JNum (Fin 1)),
                                       (''price'', JNum (Fin (- 10)))]])]) sampleDb))
         = orders sampleDb @ [ord]
       \<and> total ord = Fin 0
       \<and> total ord = Math_max (Fin 0) (Math_round (sumProducts (priced (items ord))))
       \<and> \<not> js_gt (Fin 0) (total ord))"
proof -
  let ?body = "JObj [(''cart'', JArr [JObj [(''name'', JStr ''x''), (''qty'', JNum (Fin 1)),
    (''price'', JNum (Fin (- 10)))]])]"
  let ?s = "\<lparr>orderId = 0, r_total = Fin 0, r_paymentMethod = ''gcash'',
    r_pickup = ''Gate 2.5'', itemCount = 1\<rparr>"
  have r: "fst (checkout sampleRuntime ?body sampleDb) = Created ?s"
    by (simp add: handler_defs)
  then have h: "checkout sampleRuntime ?body sampleDb
      = (Created ?s, snd (checkout sampleRuntime ?body sampleDb))"
    by (simp add: prod_eq_iff)
  from stored_total_consistent [OF h] obtain ord where
    o: "orders (snd (checkout sampleRuntime ?body sampleDb)) = orders sampleDb @ [ord]"
    and t: "r_total ?s = total ord"
    and m: "total ord = Math_max (Fin 0) (Math_round (sumProducts (priced (items ord))))"
    and g: "\<not> js_gt (Fin 0) (total ord)"
    by blast
  from t have "total ord = Fin 0" by simp
  with o m g have "orders (snd (checkout sampleRuntime ?body sampleDb)) = orders sampleDb @ [ord]
       \<and> total ord = Fin 0
       \<and> total ord = Math_max (Fin 0) (Math_round (sumProducts (priced (items ord))))
       \<and> \<not> js_gt (Fin 0) (total ord)"
    by (intro conjI)
  then show ?thesis using r by blast
qed

text \<open>
  The claim as the specification states it fails on a negative price snapshot: for
  \<open>{cart: [{name: "x", qty: 1, price: -10}]}\<close> the stored item has price -10 and
  quantity 1, whose sum is -10 in doubles as in exact arithmetic and is an integer, and
  the stored total is 0.
\<close>

theorem stored_total_counterexample:
  "orders (snd (checkout sampleRuntime
       (JObj [(''cart'', JArr [JObj [(''name'', JStr ''x''), (''qty'', JNum (Fin 1)),
                                     (''price'', JNum (Fin (- 10)))]])]) sampleDb))
     = [\<lparr>campus = ''ADMU'', pickup = ''Gate 2.5'', paymentMethod = ''gcash'',
          gcashNumber = Some '''', total = Fin 0,
          items = [\<lparr>oi_productId = ''x'', oi_qty = Fin 1, oi_price = Fin (- 10)\<rparr>]\<rparr>]
   \<and> sumProducts (priced [\<lparr>oi_productId = ''x'', oi_qty = Fin 1, oi_price = Fin (- 10)\<rparr>])
       = Fin (- 10)
   \<and> exactSum (priced [\<lparr>oi_productId = ''x'', oi_qty = Fin 1, oi_price = Fin (- 10)\<rparr>])
       = - 10
   \<and> Math_round (Fin (- 10)) = Fin (- 10)
   \<and> Fin 0 \<noteq> Fin (- 10)"
  by (simp add: handler_defs sumProducts_def exactSum_def priced_def num_def)

text \<open>
  Claim C4. In every order created from a request, the price stored on the item at each
  position, which is also the unit price that the total counts for it, is the resolved
  price of the normalized item at that position: the catalog price if its identifier
  matched a catalog entry and that price is a finite number, otherwise the price
  snapshot if that is a finite number, otherwise 0. A matched identifier with a finite
  catalog price gets the catalog price whatever the snapshot, and an unmatched identifier
  falls back to the snapshot: the order is created all the same. Catalog identifiers are
  unique.
\<close>

theorem unit_price_resolution:
  assumes "topLevel rt body = Inr f" and "normalize rt body = Inr ns"
    and "distinct (map p_id (products d))" and "k < length ns"
  shows "\<exists>ord s.
           checkout rt body d
             = (Created s,
                d\<lparr>orders := orders d @ [ord],
                  queries := queries d @ [FindProducts (lookupIds ns), CreateOrder]\<rparr>)
           \<and> length (items ord) = length ns
           \<and> oi_price (items ord ! k) = resolvedPrice (products d) (ns ! k)
           \<and> (\<forall>acc. totalStep (catalogPrices d ns) acc (ns ! k)
                 = js_add acc (js_mul (resolvedPrice (products d) (ns ! k))
                                   (effectiveQty (ns ! k))))
           \<and> (\<forall>p c. p \<in> set (products d) \<and> p_id p = productId (ns ! k)
                  \<and> productId (ns ! k) \<noteq> [] \<and> p_price p = JNum (Fin c)
                \<longrightarrow> oi_price (items ord ! k) = Fin c)
           \<and> (productId (ns ! k) \<notin> p_id ` set (products d)
                \<longrightarrow> oi_price (items ord ! k) = snapshotOrZero (ns ! k))"
proof -
  let ?pm = "catalogPrices d ns"
  let ?ord = "placed f ?pm ns"
  let ?s = "receipt (length (orders d)) ?ord"
  let ?i = "ns ! k"
  from assms(4) have ne: "ns \<noteq> []" and mem: "?i \<in> set ns" by auto
  have 1: "checkout rt body d
      = (Created ?s, d\<lparr>orders := orders d @ [?ord],
           queries := queries d @ [FindProducts (lookupIds ns), CreateOrder]\<rparr>)"
    using assms(1,2) ne by (rule checkout_created)
  have 2: "length (items ?ord) = length ns"
    by (simp add: placed_def)
  have it: "items ?ord ! k = createItem ?pm ?i"
    using assms(4) by (simp add: placed_def)
  have 3: "oi_price (items ?ord ! k) = resolvedPrice (products d) ?i"
    unfolding it using assms(3) mem by (rule createItem_price_resolved)
  have 4: "\<forall>acc. totalStep ?pm acc ?i
      = js_add acc (js_mul (resolvedPrice (products d) ?i) (effectiveQty ?i))"
    using 3 by (simp add: totalStep_createItem createItem_qty it)
  have 5: "oi_price (items ?ord ! k) = Fin c"
    if "p \<in> set (products d) \<and> p_id p = productId ?i \<and> productId ?i \<noteq> []
      \<and> p_price p = JNum (Fin c)" for p c
  proof -
    from that assms(3) have "find (\<lambda>q. p_id q = productId ?i) (products d) = Some p"
      using find_unique_id [of "products d" p] by simp
    with that show ?thesis unfolding 3 by (simp add: resolvedPrice_def)
  qed
  have 6: "oi_price (items ?ord ! k) = snapshotOrZero ?i"
    if "productId ?i \<notin> p_id ` set (products d)"
  proof -
    from that have "\<forall>q \<in> set (products d). p_id q \<noteq> productId ?i"
      by (auto simp: image_iff)
    then have "find (\<lambda>q. p_id q = productId ?i) (products d) = None"
      by (simp add: find_None_iff)
    then show ?thesis unfolding 3 by (simp add: resolvedPrice_def)
  qed
  show ?thesis
  proof (intro exI [of _ ?ord] exI [of _ ?s] conjI allI impI)
    show "checkout rt body d
      = (Created ?s, d\<lparr>orders := orders d @ [?ord],
           queries := queries d @ [FindProducts (lookupIds ns), CreateOrder]\<rparr>)"
      by (rule 1)
    show "length (items ?ord) = length ns" by (rule 2)
    show "oi_price (items ?ord ! k) = resolvedPrice (products d) ?i" by (rule 3)
    show "totalStep ?pm acc ?i
      = js_add acc (js_mul (resolvedPrice (products d) ?i) (effectiveQty ?i))" for acc
      using 4 by simp
    show "oi_price (items ?ord ! k) = Fin c"
      if "p \<in> set (products d) \<and> p_id p = productId ?i \<and> productId ?i \<noteq> []
        \<and> p_price p = JNum (Fin c)" for p c
      using that by (rule 5)
    show "oi_price (items ?ord ! k) = snapshotOrZero ?i"
      if "productId ?i \<notin> p_id ` set (products d)"
      using that by (rule 6)
  qed
qed

theorem unit_price_resolution_witness:
  "topLevel sampleRuntime
      (JObj [(''items'', JArr
         [JObj [(''productId'', JStr ''p2''), (''quantity'', JNum (Fin 3)),
                (''price'', JNum (Fin 1))],
          JObj [(''id'', JStr ''p1''), (''qty'', JNum (Fin 2)), (''price'', JNum (Fin 50))]])])
     = Inr \<lparr>f_campus = ''ADMU'', f_pickup = ''Gate 2.5'', f_paymentMethod = ''gcash'',
            f_gcashNumber = ''''\<rparr>
   \<and> normalize sampleRuntime
      (JObj [(''items'', JArr
         [JObj [(''productId'', JStr ''p2''), (''quantity'', JNum (Fin 3)),
                (''price'', JNum (Fin 1))],
          JObj [(''id'', JStr ''p1''), (''qty'', JNum (Fin 2)), (''price'', JNum (Fin 50))]])])
     = Inr [\<lparr>productId = ''p2'', qty = Fin 3, priceSnap = Fin 1\<rparr>,
            \<lparr>productId = ''p1'', qty = Fin 2, priceSnap = Fin 50\<rparr>]
   \<and> distinct (map p_id (products sampleDb))
   \<and> (\<exists>ord s. checkout sampleRuntime
      (JObj [(''items'', JArr
         [JObj [(''productId'', JStr ''p2''), (''quantity'', JNum (Fin 3)),
                (''price'', JNum (Fin 1))],
          JObj [(''id'', JStr ''p1''), (''qty'', JNum (Fin 2)), (''price'', JNum (Fin 50))]])])
        sampleDb
        = (Created s, sampleDb\<lparr>orders := [ord],
             queries := [FindProducts [''p2'', ''p1''], CreateOrder]\<rparr>)
      \<and> length (items ord) = 2
      \<and> oi_price (items ord ! 0) = Fin 40)"
proof -
  let ?body = "JObj [(''items'', JArr
         [JObj [(''productId'', JStr ''p2''), (''quantity'', JNum (Fin 3)),
                (''price'', JNum (Fin 1))],
          JObj [(''id'', JStr ''p1''), (''qty'', JNum (Fin 2)), (''price'', JNum (Fin 50))]])]"
  let ?f = "\<lparr>f_campus = ''ADMU'', f_pickup = ''Gate 2.5'', f_paymentMethod = ''gcash'',
    f_gcashNumber = ''''\<rparr>"
  let ?ns = "[\<lparr>productId = ''p2'', qty = Fin 3, priceSnap = Fin 1\<rparr>,
            \<lparr>productId = ''p1'', qty = Fin 2, priceSnap = Fin 50\<rparr>]"
  have f: "topLevel sampleRuntime ?body = Inr ?f"
    by (simp add: handler_defs)
  have n: "normalize sampleRuntime ?body = Inr ?ns"
    by (simp add: handler_defs)
  have dd: "distinct (map p_id (products sampleDb))"
    by (simp add: sampleDb_def)
  have k: "0 < length ?ns" by simp
  have l: "lookupIds ?ns = [''p2'', ''p1'']"
    by (simp add: lookupIds_def)
  have rp: "resolvedPrice (products sampleDb) (?ns ! 0) = Fin 40"
    by (simp add: resolvedPrice_def sampleDb_def)
  from unit_price_resolution [OF f n dd k] obtain ord s where
    "checkout sampleRuntime ?body sampleDb
       = (Created s, sampleDb\<lparr>orders := orders sampleDb @ [ord],
            queries := queries sampleDb @ [FindProducts (lookupIds ?ns), CreateOrder]\<rparr>)"
    and "length (items ord) = length ?ns"
    and "oi_price (items ord ! 0) = resolvedPrice (products sampleDb) (?ns ! 0)"
    by blast
  then have "checkout sampleRuntime ?body sampleDb
       = (Created s, sampleDb\<lparr>orders := [ord],
            queries := [FindProducts [''p2'', ''p1''], CreateOrder]\<rparr>)
      \<and> length (items ord) = 2 \<and> oi_price (items ord ! 0) = Fin 40"
    unfolding l rp by (simp add: sampleDb_def)
  with f n dd show ?thesis by blast
qed

end
